theory Spec2Isabelle
  imports Main "HOL-Library.AList"
begin

section \<open>Go strings\<close>

text \<open>
  A Go \<open>string\<close> is a sequence of bytes and \<open>len\<close> counts bytes, so a Go string is a
  \<open>string\<close> (a list of 8-bit characters) and \<open>len\<close> is \<open>length\<close>. A slice
  \<open>s[:n]\<close> is \<open>take n s\<close> and \<open>s[n:]\<close> is \<open>drop n s\<close>; every slice expression of
  the source is guarded by a length test, so none of them can panic.
\<close>

definition HasPrefix :: "string \<Rightarrow> string \<Rightarrow> bool" where
  \<comment> \<open>\<open>strings.HasPrefix(s, prefix)\<close>\<close>
  "HasPrefix s pre = (length pre \<le> length s \<and> take (length pre) s = pre)"

fun Contains :: "string \<Rightarrow> string \<Rightarrow> bool" where
  \<comment> \<open>\<open>strings.Contains(s, substr)\<close>: some suffix of \<open>s\<close> starts with \<open>substr\<close>\<close>
  "Contains [] sub = (sub = [])"
| "Contains (c # cs) sub = (HasPrefix (c # cs) sub \<or> Contains cs sub)"

fun LastIndex_scan :: "string \<Rightarrow> string \<Rightarrow> int \<Rightarrow> int \<Rightarrow> int" where
  \<comment> \<open>scans \<open>s\<close> from position \<open>i\<close>, remembering in \<open>found\<close> the last position where \<open>substr\<close> starts\<close>
  "LastIndex_scan [] sub i found = (if sub = [] then i else found)"
| "LastIndex_scan (c # cs) sub i found =
     LastIndex_scan cs sub (i + 1) (if HasPrefix (c # cs) sub then i else found)"

definition LastIndex :: "string \<Rightarrow> string \<Rightarrow> int" where
  \<comment> \<open>\<open>strings.LastIndex(s, substr)\<close>: the index of the last instance of \<open>substr\<close> in \<open>s\<close>, or \<open>-1\<close>\<close>
  "LastIndex s sub = LastIndex_scan s sub 0 (- 1)"

definition digit :: "nat \<Rightarrow> char" where
  "digit d = ''0123456789'' ! d"

fun Itoa :: "nat \<Rightarrow> string" where
  \<comment> \<open>\<open>strconv.Itoa(i)\<close> for the non-negative values the collision counter takes\<close>
  "Itoa n = (if n < 10 then [digit n] else Itoa (n div 10) @ [digit (n mod 10)])"

declare Itoa.simps [simp del]

section \<open>Identifier Shortener\<close>

definition limit :: nat where
  \<comment> \<open>\<open>const limit = 64\<close>\<close>
  "limit = 64"

definition shortenNameIfNeeded :: "string \<Rightarrow> string" where
  "shortenNameIfNeeded name =
     (if length name \<le> limit then name
      else if HasPrefix name ''mcp__'' \<and> LastIndex name ''__'' > 0 then
        (let idx = LastIndex name ''__'';
             candidate = ''mcp__'' @ drop (nat (idx + 2)) name
         in if length candidate > limit then take limit candidate else candidate)
      else take limit name)"

definition baseCandidate :: "string \<Rightarrow> string" where
  \<comment> \<open>the closure \<open>baseCandidate\<close> of \<open>buildShortNameMap\<close>\<close>
  "baseCandidate n =
     (if length n \<le> limit then n
      else if HasPrefix n ''mcp__'' \<and> LastIndex n ''__'' > 0 then
        (let idx = LastIndex n ''__'';
             cand = ''mcp__'' @ drop (nat (idx + 2)) n;
             cand = (if length cand > limit then take limit cand else cand)
         in cand)
      else take limit n)"

definition suffixed :: "string \<Rightarrow> nat \<Rightarrow> string" where
  \<comment> \<open>the body of the \<open>for i := 1; ; i++\<close> loop of \<open>makeUnique\<close>: the candidate tried at \<open>i\<close>\<close>
  "suffixed base i =
     (let suffix = ''_'' @ Itoa i;
          allowed = int limit - int (length suffix);
          allowed = (if allowed < 0 then 0 else allowed);
          tmp = base;
          tmp = (if int (length tmp) > allowed then take (nat allowed) tmp else tmp)
      in tmp @ suffix)"

function makeUnique_loop :: "string list \<Rightarrow> string \<Rightarrow> nat \<Rightarrow> string" where
  "makeUnique_loop used base i =
     (if suffixed base i \<notin> set used then suffixed base i
      else makeUnique_loop used base (i + 1))"
  by pat_completeness auto

definition makeUnique :: "string list \<Rightarrow> string \<Rightarrow> string" where
  \<comment> \<open>the closure \<open>makeUnique\<close>; \<open>used\<close> lists the keys of the Go map \<open>used\<close>\<close>
  "makeUnique used cand =
     (if cand \<notin> set used then cand else makeUnique_loop used cand 1)"

fun buildShortNameMap_loop ::
  "string list \<Rightarrow> string list \<times> (string \<rightharpoonup> string) \<Rightarrow> string list \<times> (string \<rightharpoonup> string)" where
  \<comment> \<open>\<open>for _, n := range names\<close>, threading the two maps \<open>used\<close> and \<open>m\<close>\<close>
  "buildShortNameMap_loop [] (used, m) = (used, m)"
| "buildShortNameMap_loop (n # ns) (used, m) =
     (let cand = baseCandidate n;
          uniq = makeUnique used cand
      in buildShortNameMap_loop ns (uniq # used, m(n \<mapsto> uniq)))"

definition buildShortNameMap :: "string list \<Rightarrow> (string \<rightharpoonup> string)" where
  "buildShortNameMap names = snd (buildShortNameMap_loop names ([], Map.empty))"

section \<open>JSON documents\<close>

text \<open>
  The converters read and write JSON text through the libraries \<open>gjson\<close> and \<open>sjson\<close>,
  and hash through Go's \<open>crypto/sha256\<close>; none of the three belongs to the repository. A
  document is modelled as its parsed tree. An object is the list of its members in
  source order; a name may occur more than once, and then a lookup finds the first
  member of that name, a write replaces the first and a deletion removes the first. A
  number carries its text.
\<close>

datatype json =
    JNull
  | JBool bool
  | JNum string
  | JStr string
  | JArr "json list"
  | JObj "(string \<times> json) list"

text \<open>
  What a tree does not determine is taken as a parameter of the model: the source text
  of an array or object (\<open>Result.Raw\<close>), the effect of decoding a value into a Go value
  and encoding it again (\<open>Result.Value()\<close> handed to \<open>sjson.Set\<close>), and the hash function.
\<close>

record lib =
  sha256_hex :: "string \<Rightarrow> string"
  raw_text :: "json \<Rightarrow> string"
  reencode :: "json \<Rightarrow> json"

datatype seg = Key string | Idx nat | Append

fun gjson_Get_seg :: "seg \<Rightarrow> json \<Rightarrow> json option" where
  \<comment> \<open>Modelled from the spec: one step of get-by-path (\<open>gjson\<close> is not in the sources): a
      member of an object by name, an element of an array by index, nothing otherwise\<close>
  "gjson_Get_seg (Key k) (JObj ms) = map_of ms k"
| "gjson_Get_seg (Idx i) (JArr xs) = (if i < length xs then Some (xs ! i) else None)"
| "gjson_Get_seg _ _ = None"

fun gjson_Get :: "json option \<Rightarrow> seg list \<Rightarrow> json option" where
  \<comment> \<open>Modelled from the spec: get-by-path, \<open>gjson.Get\<close> and \<open>Result.Get\<close> (\<open>gjson\<close> is not in
      the sources); \<open>None\<close> is the result that does not exist\<close>
  "gjson_Get r [] = r"
| "gjson_Get r (s # p) = (case r of None \<Rightarrow> None | Some j \<Rightarrow> gjson_Get (gjson_Get_seg s j) p)"

definition gjson_Exists :: "json option \<Rightarrow> bool" where
  \<comment> \<open>Modelled from the spec: \<open>Result.Exists()\<close> (\<open>gjson\<close> is not in the sources); a member
      whose value is \<open>null\<close> exists\<close>
  "gjson_Exists r = (r \<noteq> None)"

fun gjson_String :: "lib \<Rightarrow> json option \<Rightarrow> string" where
  \<comment> \<open>Modelled from the spec: \<open>Result.String()\<close> (\<open>gjson\<close> is not in the sources): the
      string itself, the text of a number or boolean, the source text of a container, and
      the empty string for \<open>null\<close> and for a result that does not exist\<close>
  "gjson_String L None = []"
| "gjson_String L (Some JNull) = []"
| "gjson_String L (Some (JBool b)) = (if b then ''true'' else ''false'')"
| "gjson_String L (Some (JNum n)) = n"
| "gjson_String L (Some (JStr s)) = s"
| "gjson_String L (Some (JArr xs)) = raw_text L (JArr xs)"
| "gjson_String L (Some (JObj ms)) = raw_text L (JObj ms)"

fun gjson_IsString :: "json option \<Rightarrow> bool" where
  \<comment> \<open>Modelled from the spec: \<open>Result.Type == gjson.String\<close> (\<open>gjson\<close> is not in the sources)\<close>
  "gjson_IsString (Some (JStr s)) = True"
| "gjson_IsString _ = False"

fun gjson_IsArray :: "json option \<Rightarrow> bool" where
  \<comment> \<open>Modelled from the spec: \<open>Result.IsArray()\<close> (\<open>gjson\<close> is not in the sources)\<close>
  "gjson_IsArray (Some (JArr xs)) = True"
| "gjson_IsArray _ = False"

fun gjson_IsObject :: "json option \<Rightarrow> bool" where
  \<comment> \<open>Modelled from the spec: \<open>Result.IsObject()\<close> (\<open>gjson\<close> is not in the sources)\<close>
  "gjson_IsObject (Some (JObj ms)) = True"
| "gjson_IsObject _ = False"

fun gjson_Array :: "json option \<Rightarrow> json list" where
  \<comment> \<open>Modelled from the spec: \<open>Result.Array()\<close> (\<open>gjson\<close> is not in the sources): the
      elements of an array, no element for \<open>null\<close> or a missing result, and any other value
      as its only element\<close>
  "gjson_Array (Some (JArr xs)) = xs"
| "gjson_Array None = []"
| "gjson_Array (Some JNull) = []"
| "gjson_Array (Some v) = [v]"

fun gjson_Value :: "lib \<Rightarrow> json \<Rightarrow> json" where
  \<comment> \<open>Modelled from the spec: \<open>Result.Value()\<close> handed to \<open>sjson.Set\<close> (neither library is
      in the sources): a string, a boolean and \<open>null\<close> are written back as they are; a
      number, an array and an object pass through Go's \<open>float64\<close>, slices and maps\<close>
  "gjson_Value L (JStr s) = JStr s"
| "gjson_Value L (JBool b) = JBool b"
| "gjson_Value L JNull = JNull"
| "gjson_Value L v = reencode L v"

fun sjson_Set :: "json \<Rightarrow> seg list \<Rightarrow> json \<Rightarrow> json" where
  \<comment> \<open>Modelled from the spec: set-by-path, raw substitution and array append, \<open>sjson.Set\<close>
      and \<open>sjson.SetRaw\<close> (\<open>sjson\<close> is not in the sources). A member that exists is replaced
      where it stands, a new one is added after the last; the segment \<open>-1\<close> appends to an
      array; a missing intermediate value is created. The converters never address a
      member inside an array, an element inside an object or an index past the end, where
      this model leaves the value as it is.\<close>
  "sjson_Set j [] v = v"
| "sjson_Set j (Key k # p) v =
     (case j of
        JObj ms \<Rightarrow>
          JObj (AList.update k (sjson_Set (case map_of ms k of Some x \<Rightarrow> x | None \<Rightarrow> JNull) p v) ms)
      | JArr xs \<Rightarrow> JArr xs
      | _ \<Rightarrow> JObj [(k, sjson_Set JNull p v)])"
| "sjson_Set j (Append # p) v =
     (case j of
        JArr xs \<Rightarrow> JArr (xs @ [sjson_Set JNull p v])
      | JObj ms \<Rightarrow> JObj ms
      | _ \<Rightarrow> JArr [sjson_Set JNull p v])"
| "sjson_Set j (Idx i # p) v =
     (case j of
        JArr xs \<Rightarrow> (if i < length xs then JArr (xs[i := sjson_Set (xs ! i) p v]) else JArr xs)
      | _ \<Rightarrow> j)"

fun delete_first :: "string \<Rightarrow> (string \<times> json) list \<Rightarrow> (string \<times> json) list" where
  \<comment> \<open>Modelled from the spec: what one \<open>sjson.Delete\<close> does to the members of an object
      (\<open>sjson\<close> is not in the sources): the first member of that name is removed, a later
      member of the same name stays\<close>
  "delete_first k [] = []"
| "delete_first k (p # ps) = (if fst p = k then ps else p # delete_first k ps)"

fun sjson_Delete :: "json \<Rightarrow> string \<Rightarrow> json" where
  \<comment> \<open>Modelled from the spec: \<open>sjson.Delete\<close> of a top-level member (\<open>sjson\<close> is not in the
      sources); deleting a member that is not there changes nothing\<close>
  "sjson_Delete (JObj ms) k = JObj (delete_first k ms)"
| "sjson_Delete j k = j"

definition lib0 :: lib where
  \<comment> \<open>an instance of the parameters for evaluating examples: it is not SHA-256, and the
      examples that use it do not depend on which functions it holds\<close>
  "lib0 = \<lparr>sha256_hex = (\<lambda>id. replicate 64 CHR ''0''), raw_text = (\<lambda>j. []), reencode = (\<lambda>j. j)\<rparr>"

section \<open>Call identifiers\<close>

definition shortenCallID :: "lib \<Rightarrow> string \<Rightarrow> string" where
  "shortenCallID L ident =
     (if length ident \<le> limit then ident
      else
        (let hash = sha256_hex L ident;
             prefix = ''call_'';
             available = int limit - int (length prefix);
             available = (if available < 0 then 0 else available);
             hash = (if int (length hash) > available then take (nat available) hash else hash)
         in prefix @ hash))"

definition chat_normalizeCallID ::
  "lib \<Rightarrow> string \<Rightarrow> (string \<rightharpoonup> string) \<Rightarrow> string \<times> (string \<rightharpoonup> string)" where
  \<comment> \<open>the closure \<open>normalizeCallID\<close> of \<open>ConvertOpenAIRequestToCodex\<close>; the map \<open>callIDMap\<close>
      it captures is passed in and returned\<close>
  "chat_normalizeCallID L ident callIDMap =
     (if ident = [] \<or> length ident \<le> 64 then (ident, callIDMap)
      else
        (case callIDMap ident of
           Some short \<Rightarrow> (short, callIDMap)
         | None \<Rightarrow> (let short = shortenCallID L ident in (short, callIDMap(ident \<mapsto> short)))))"

section \<open>Chat-Completions Converter\<close>

fun collect_names :: "lib \<Rightarrow> json list \<Rightarrow> string list \<Rightarrow> string list" where
  \<comment> \<open>lines 79 to 89: the names of the function tools, in order\<close>
  "collect_names L [] names = names"
| "collect_names L (t # arr) names =
     (if gjson_String L (gjson_Get (Some t) [Key ''type'']) = ''function'' then
        (let fn = gjson_Get (Some t) [Key ''function'']
         in if gjson_Exists fn then
              (case gjson_Get fn [Key ''name''] of
                 Some v \<Rightarrow> collect_names L arr (names @ [gjson_String L (Some v)])
               | None \<Rightarrow> collect_names L arr names)
            else collect_names L arr names)
      else collect_names L arr names)"

definition originalToolNameMap :: "lib \<Rightarrow> json \<Rightarrow> (string \<rightharpoonup> string)" where
  \<comment> \<open>lines 72 to 94\<close>
  "originalToolNameMap L rawJSON =
     (let tools = gjson_Get (Some rawJSON) [Key ''tools'']
      in if gjson_IsArray tools \<and> length (gjson_Array tools) > 0 then
           (let names = collect_names L (gjson_Array tools) []
            in if length names > 0 then buildShortNameMap names else Map.empty)
         else Map.empty)"

definition mapped_name :: "(string \<rightharpoonup> string) \<Rightarrow> string \<Rightarrow> string" where
  \<comment> \<open>\<open>if short, ok := originalToolNameMap[name]; ok { name = short } else { name = shortenNameIfNeeded(name) }\<close>\<close>
  "mapped_name nm name = (case nm name of Some short \<Rightarrow> short | None \<Rightarrow> shortenNameIfNeeded name)"

fun content_items_loop :: "lib \<Rightarrow> string \<Rightarrow> json list \<Rightarrow> json \<Rightarrow> json" where
  \<comment> \<open>lines 173 to 199: the parts of an array content, appended to \<open>msg\<close>\<close>
  "content_items_loop L role [] msg = msg"
| "content_items_loop L role (it # items) msg =
     (let t = gjson_String L (gjson_Get (Some it) [Key ''type''])
      in if t = ''text'' then
           (let partType = (if role = ''assistant'' then ''output_text'' else ''input_text'');
                part = JObj [];
                part = sjson_Set part [Key ''type''] (JStr partType);
                part = sjson_Set part [Key ''text'']
                         (JStr (gjson_String L (gjson_Get (Some it) [Key ''text''])));
                msg = sjson_Set msg [Key ''content'', Append] part
            in content_items_loop L role items msg)
         else if t = ''image_url'' then
           (if role = ''user'' then
              (let part = JObj [];
                   part = sjson_Set part [Key ''type''] (JStr ''input_image'');
                   part = (case gjson_Get (Some it) [Key ''image_url'', Key ''url''] of
                             Some u \<Rightarrow> sjson_Set part [Key ''image_url''] (JStr (gjson_String L (Some u)))
                           | None \<Rightarrow> part);
                   msg = sjson_Set msg [Key ''content'', Append] part
               in content_items_loop L role items msg)
            else content_items_loop L role items msg)
         else content_items_loop L role items msg)"

definition build_message :: "lib \<Rightarrow> string \<Rightarrow> json \<Rightarrow> json" where
  \<comment> \<open>lines 149 to 200: the message item of a message that is not a tool response\<close>
  "build_message L role m =
     (let msg = JObj [];
          msg = sjson_Set msg [Key ''type''] (JStr ''message'');
          msg = (if role = ''system'' then sjson_Set msg [Key ''role''] (JStr ''developer'')
                 else sjson_Set msg [Key ''role''] (JStr role));
          msg = sjson_Set msg [Key ''content''] (JArr []);
          c = gjson_Get (Some m) [Key ''content'']
      in if gjson_Exists c \<and> gjson_IsString c \<and> gjson_String L c \<noteq> [] then
           (let partType = (if role = ''assistant'' then ''output_text'' else ''input_text'');
                part = JObj [];
                part = sjson_Set part [Key ''type''] (JStr partType);
                part = sjson_Set part [Key ''text''] (JStr (gjson_String L c))
            in sjson_Set msg [Key ''content'', Append] part)
         else if gjson_Exists c \<and> gjson_IsArray c then
           content_items_loop L role (gjson_Array c) msg
         else msg)"

fun tool_calls_loop ::
  "lib \<Rightarrow> (string \<rightharpoonup> string) \<Rightarrow> json list \<Rightarrow> json \<times> (string \<rightharpoonup> string)
   \<Rightarrow> json \<times> (string \<rightharpoonup> string)" where
  \<comment> \<open>lines 209 to 228: one \<open>function_call\<close> item for each function-type tool call\<close>
  "tool_calls_loop L nm [] (out, callIDMap) = (out, callIDMap)"
| "tool_calls_loop L nm (tc # toolCallsArr) (out, callIDMap) =
     (if gjson_String L (gjson_Get (Some tc) [Key ''type'']) = ''function'' then
        (let funcCall = JObj [];
             funcCall = sjson_Set funcCall [Key ''type''] (JStr ''function_call'');
             (callID, callIDMap) =
                chat_normalizeCallID L (gjson_String L (gjson_Get (Some tc) [Key ''id''])) callIDMap;
             funcCall = sjson_Set funcCall [Key ''call_id''] (JStr callID);
             name = gjson_String L (gjson_Get (Some tc) [Key ''function'', Key ''name'']);
             name = mapped_name nm name;
             funcCall = sjson_Set funcCall [Key ''name''] (JStr name);
             funcCall = sjson_Set funcCall [Key ''arguments'']
                          (JStr (gjson_String L (gjson_Get (Some tc) [Key ''function'', Key ''arguments''])));
             out = sjson_Set out [Key ''input'', Append] funcCall
         in tool_calls_loop L nm toolCallsArr (out, callIDMap))
      else tool_calls_loop L nm toolCallsArr (out, callIDMap))"

definition convert_message ::
  "lib \<Rightarrow> (string \<rightharpoonup> string) \<Rightarrow> json \<Rightarrow> json \<times> (string \<rightharpoonup> string)
   \<Rightarrow> json \<times> (string \<rightharpoonup> string)" where
  \<comment> \<open>lines 131 to 231: the body of the loop over \<open>messages\<close>\<close>
  "convert_message L nm m st =
     (let (out, callIDMap) = st;
          role = gjson_String L (gjson_Get (Some m) [Key ''role''])
      in if role = ''tool'' then
           (let (toolCallID, callIDMap) =
                  chat_normalizeCallID L (gjson_String L (gjson_Get (Some m) [Key ''tool_call_id''])) callIDMap;
                content = gjson_String L (gjson_Get (Some m) [Key ''content'']);
                funcOutput = JObj [];
                funcOutput = sjson_Set funcOutput [Key ''type''] (JStr ''function_call_output'');
                funcOutput = sjson_Set funcOutput [Key ''call_id''] (JStr toolCallID);
                funcOutput = sjson_Set funcOutput [Key ''output''] (JStr content);
                out = sjson_Set out [Key ''input'', Append] funcOutput
            in (out, callIDMap))
         else
           (let msg = build_message L role m;
                out = sjson_Set out [Key ''input'', Append] msg
            in if role = ''assistant'' then
                 (let toolCalls = gjson_Get (Some m) [Key ''tool_calls'']
                  in if gjson_Exists toolCalls \<and> gjson_IsArray toolCalls then
                       tool_calls_loop L nm (gjson_Array toolCalls) (out, callIDMap)
                     else (out, callIDMap))
               else (out, callIDMap)))"

fun messages_loop ::
  "lib \<Rightarrow> (string \<rightharpoonup> string) \<Rightarrow> json list \<Rightarrow> json \<times> (string \<rightharpoonup> string)
   \<Rightarrow> json \<times> (string \<rightharpoonup> string)" where
  \<comment> \<open>\<open>for i := 0; i < len(arr); i++\<close> over the messages\<close>
  "messages_loop L nm [] st = st"
| "messages_loop L nm (m # arr) st = messages_loop L nm arr (convert_message L nm m st)"

definition map_response_format :: "lib \<Rightarrow> json \<Rightarrow> json \<Rightarrow> json" where
  \<comment> \<open>lines 236 to 278: the Structured-Output Mapper\<close>
  "map_response_format L rawJSON out0 =
     (let rf = gjson_Get (Some rawJSON) [Key ''response_format''];
          text = gjson_Get (Some rawJSON) [Key ''text'']
      in if gjson_Exists rf then
           (let out = (if \<not> gjson_Exists (gjson_Get (Some out0) [Key ''text''])
                       then sjson_Set out0 [Key ''text''] (JObj []) else out0);
                rft = gjson_String L (gjson_Get rf [Key ''type'']);
                out =
                  (if rft = ''text'' then
                     sjson_Set out [Key ''text'', Key ''format'', Key ''type''] (JStr ''text'')
                   else if rft = ''json_schema'' then
                     (let js = gjson_Get rf [Key ''json_schema'']
                      in if gjson_Exists js then
                           (let out = sjson_Set out [Key ''text'', Key ''format'', Key ''type'']
                                        (JStr ''json_schema'');
                                out = (case gjson_Get js [Key ''name''] of
                                         Some v \<Rightarrow> sjson_Set out [Key ''text'', Key ''format'', Key ''name'']
                                                     (gjson_Value L v)
                                       | None \<Rightarrow> out);
                                out = (case gjson_Get js [Key ''strict''] of
                                         Some v \<Rightarrow> sjson_Set out [Key ''text'', Key ''format'', Key ''strict'']
                                                     (gjson_Value L v)
                                       | None \<Rightarrow> out);
                                out = (case gjson_Get js [Key ''schema''] of
                                         Some v \<Rightarrow> sjson_Set out [Key ''text'', Key ''format'', Key ''schema''] v
                                       | None \<Rightarrow> out)
                            in out)
                         else out)
                   else out);
                out =
                  (if gjson_Exists text then
                     (case gjson_Get text [Key ''verbosity''] of
                        Some v \<Rightarrow> sjson_Set out [Key ''text'', Key ''verbosity''] (gjson_Value L v)
                      | None \<Rightarrow> out)
                   else out)
            in out)
         else if gjson_Exists text then
           (case gjson_Get text [Key ''verbosity''] of
              Some v \<Rightarrow>
                (let out = (if \<not> gjson_Exists (gjson_Get (Some out0) [Key ''text''])
                            then sjson_Set out0 [Key ''text''] (JObj []) else out0)
                 in sjson_Set out [Key ''text'', Key ''verbosity''] (gjson_Value L v))
            | None \<Rightarrow> out0)
         else out0)"

definition function_tool_item :: "lib \<Rightarrow> (string \<rightharpoonup> string) \<Rightarrow> json \<Rightarrow> json" where
  \<comment> \<open>lines 296 to 318: the flattened form of a function tool\<close>
  "function_tool_item L nm t =
     (let item = JObj [];
          item = sjson_Set item [Key ''type''] (JStr ''function'');
          fn = gjson_Get (Some t) [Key ''function'']
      in if gjson_Exists fn then
           (let item = (case gjson_Get fn [Key ''name''] of
                          Some v \<Rightarrow> sjson_Set item [Key ''name'']
                                      (JStr (mapped_name nm (gjson_String L (Some v))))
                        | None \<Rightarrow> item);
                item = (case gjson_Get fn [Key ''description''] of
                          Some v \<Rightarrow> sjson_Set item [Key ''description''] (gjson_Value L v)
                        | None \<Rightarrow> item);
                item = (case gjson_Get fn [Key ''parameters''] of
                          Some v \<Rightarrow> sjson_Set item [Key ''parameters''] v
                        | None \<Rightarrow> item);
                item = (case gjson_Get fn [Key ''strict''] of
                          Some v \<Rightarrow> sjson_Set item [Key ''strict''] (gjson_Value L v)
                        | None \<Rightarrow> item)
            in item)
         else item)"

fun tools_loop :: "lib \<Rightarrow> (string \<rightharpoonup> string) \<Rightarrow> json list \<Rightarrow> json \<Rightarrow> json" where
  \<comment> \<open>lines 285 to 321: the loop over the entries of \<open>tools\<close>\<close>
  "tools_loop L nm [] out = out"
| "tools_loop L nm (t # arr) out =
     (let toolType = gjson_String L (gjson_Get (Some t) [Key ''type''])
      in if toolType \<noteq> [] \<and> toolType \<noteq> ''function'' \<and> gjson_IsObject (Some t) then
           tools_loop L nm arr (sjson_Set out [Key ''tools'', Append] t)
         else if toolType = ''function'' then
           tools_loop L nm arr (sjson_Set out [Key ''tools'', Append] (function_tool_item L nm t))
         else tools_loop L nm arr out)"

definition map_tools :: "lib \<Rightarrow> (string \<rightharpoonup> string) \<Rightarrow> json \<Rightarrow> json \<Rightarrow> json" where
  \<comment> \<open>lines 281 to 322\<close>
  "map_tools L nm rawJSON out =
     (let tools = gjson_Get (Some rawJSON) [Key ''tools'']
      in if gjson_IsArray tools \<and> length (gjson_Array tools) > 0 then
           tools_loop L nm (gjson_Array tools) (sjson_Set out [Key ''tools''] (JArr []))
         else out)"

definition map_tool_choice :: "lib \<Rightarrow> (string \<rightharpoonup> string) \<Rightarrow> json \<Rightarrow> json \<Rightarrow> json" where
  \<comment> \<open>lines 327 to 353\<close>
  "map_tool_choice L nm rawJSON out =
     (case gjson_Get (Some rawJSON) [Key ''tool_choice''] of
        None \<Rightarrow> out
      | Some tc \<Rightarrow>
          if gjson_IsString (Some tc) then
            sjson_Set out [Key ''tool_choice''] (JStr (gjson_String L (Some tc)))
          else if gjson_IsObject (Some tc) then
            (let tcType = gjson_String L (gjson_Get (Some tc) [Key ''type''])
             in if tcType = ''function'' then
                  (let name = gjson_String L (gjson_Get (Some tc) [Key ''function'', Key ''name'']);
                       name = (if name \<noteq> [] then mapped_name nm name else name);
                       choice = JObj [];
                       choice = sjson_Set choice [Key ''type''] (JStr ''function'');
                       choice = (if name \<noteq> [] then sjson_Set choice [Key ''name''] (JStr name)
                                 else choice)
                   in sjson_Set out [Key ''tool_choice''] choice)
                else if tcType \<noteq> [] then sjson_Set out [Key ''tool_choice''] tc
                else out)
          else out)"

definition ConvertOpenAIRequestToCodex :: "lib \<Rightarrow> string \<Rightarrow> json \<Rightarrow> bool \<Rightarrow> json" where
  "ConvertOpenAIRequestToCodex L modelName rawJSON stream =
     (let out = JObj [(''instructions'', JStr [])];
          out = sjson_Set out [Key ''stream''] (JBool stream);
          out = (case gjson_Get (Some rawJSON) [Key ''reasoning_effort''] of
                   Some v \<Rightarrow> sjson_Set out [Key ''reasoning'', Key ''effort''] (gjson_Value L v)
                 | None \<Rightarrow> sjson_Set out [Key ''reasoning'', Key ''effort''] (JStr ''medium''));
          out = sjson_Set out [Key ''parallel_tool_calls''] (JBool True);
          out = sjson_Set out [Key ''reasoning'', Key ''summary''] (JStr ''auto'');
          out = sjson_Set out [Key ''include''] (JArr [JStr ''reasoning.encrypted_content'']);
          out = sjson_Set out [Key ''model''] (JStr modelName);
          nm = originalToolNameMap L rawJSON;
          callIDMap = Map.empty;
          messages = gjson_Get (Some rawJSON) [Key ''messages''];
          out = sjson_Set out [Key ''input''] (JArr []);
          (out, callIDMap) =
             (if gjson_IsArray messages then messages_loop L nm (gjson_Array messages) (out, callIDMap)
              else (out, callIDMap));
          out = map_response_format L rawJSON out;
          out = map_tools L nm rawJSON out;
          out = map_tool_choice L nm rawJSON out;
          out = sjson_Set out [Key ''store''] (JBool False)
      in out)"

section \<open>Responses Normalizer\<close>

definition responses_normalizeCallID ::
  "lib \<Rightarrow> string \<Rightarrow> (string \<rightharpoonup> string) \<Rightarrow> string \<times> (string \<rightharpoonup> string)" where
  \<comment> \<open>\<open>normalizeCallID\<close> of package \<open>responses\<close>; its only caller passes a map that is not
      \<open>nil\<close>, so the cache is always consulted and always written\<close>
  "responses_normalizeCallID L ident cache =
     (if ident = [] \<or> length ident \<le> limit then (ident, cache)
      else
        (case cache ident of
           Some short \<Rightarrow> (short, cache)
         | None \<Rightarrow>
             (let hash = sha256_hex L ident;
                  prefix = ''call_'';
                  available = int limit - int (length prefix);
                  available = (if available < 0 then 0 else available);
                  hash = (if int (length hash) > available then take (nat available) hash else hash);
                  short = prefix @ hash
              in (short, cache(ident \<mapsto> short)))))"

definition convertSystemRoleToDeveloper :: "lib \<Rightarrow> json \<Rightarrow> json" where
  "convertSystemRoleToDeveloper L rawJSON =
     (let inputResult = gjson_Get (Some rawJSON) [Key ''input'']
      in if \<not> gjson_IsArray inputResult then rawJSON
         else
           (let inputArray = gjson_Array inputResult
            in fold (\<lambda>i result.
                       let rolePath = [Key ''input'', Idx i, Key ''role'']
                       in if gjson_String L (gjson_Get (Some result) rolePath) = ''system''
                          then sjson_Set result rolePath (JStr ''developer'')
                          else result)
                 [0..<length inputArray] rawJSON))"

fun normalizeInputCallIDs_loop ::
  "lib \<Rightarrow> nat \<Rightarrow> json list \<Rightarrow> json \<times> (string \<rightharpoonup> string) \<Rightarrow> json \<times> (string \<rightharpoonup> string)" where
  \<comment> \<open>\<open>for i, item := range inputResult.Array()\<close>: the items that remain from index \<open>i\<close> on\<close>
  "normalizeInputCallIDs_loop L i [] (result, callIDMap) = (result, callIDMap)"
| "normalizeInputCallIDs_loop L i (item # items) (result, callIDMap) =
     (let callID = gjson_String L (gjson_Get (Some item) [Key ''call_id''])
      in if callID = [] then normalizeInputCallIDs_loop L (i + 1) items (result, callIDMap)
         else
           (let (normalized, callIDMap) = responses_normalizeCallID L callID callIDMap
            in if normalized = callID then
                 normalizeInputCallIDs_loop L (i + 1) items (result, callIDMap)
               else
                 normalizeInputCallIDs_loop L (i + 1) items
                   (sjson_Set result [Key ''input'', Idx i, Key ''call_id''] (JStr normalized),
                    callIDMap)))"

definition normalizeInputCallIDs :: "lib \<Rightarrow> json \<Rightarrow> json" where
  "normalizeInputCallIDs L rawJSON =
     (let inputResult = gjson_Get (Some rawJSON) [Key ''input'']
      in if \<not> gjson_IsArray inputResult then rawJSON
         else fst (normalizeInputCallIDs_loop L 0 (gjson_Array inputResult) (rawJSON, Map.empty)))"

definition ConvertOpenAIResponsesRequestToCodex :: "lib \<Rightarrow> string \<Rightarrow> json \<Rightarrow> bool \<Rightarrow> json" where
  "ConvertOpenAIResponsesRequestToCodex L modelName inputRawJSON unused =
     (let rawJSON = inputRawJSON;
          inputResult = gjson_Get (Some rawJSON) [Key ''input''];
          rawJSON =
            (if gjson_IsString inputResult then
               (let input = sjson_Set
                              (JArr [JObj [(''type'', JStr ''message''), (''role'', JStr ''user''),
                                           (''content'', JArr [JObj [(''type'', JStr ''input_text''),
                                                                    (''text'', JStr [])]])]])
                              [Idx 0, Key ''content'', Idx 0, Key ''text'']
                              (JStr (gjson_String L inputResult))
                in sjson_Set rawJSON [Key ''input''] input)
             else rawJSON);
          rawJSON = sjson_Set rawJSON [Key ''stream''] (JBool True);
          rawJSON = sjson_Set rawJSON [Key ''store''] (JBool False);
          rawJSON = sjson_Set rawJSON [Key ''parallel_tool_calls''] (JBool True);
          rawJSON = sjson_Set rawJSON [Key ''include''] (JArr [JStr ''reasoning.encrypted_content'']);
          rawJSON = sjson_Delete rawJSON ''max_output_tokens'';
          rawJSON = sjson_Delete rawJSON ''max_completion_tokens'';
          rawJSON = sjson_Delete rawJSON ''temperature'';
          rawJSON = sjson_Delete rawJSON ''top_p'';
          rawJSON = sjson_Delete rawJSON ''service_tier'';
          rawJSON = sjson_Delete rawJSON ''user'';
          rawJSON = convertSystemRoleToDeveloper L rawJSON;
          rawJSON = normalizeInputCallIDs L rawJSON
      in rawJSON)"

section \<open>Example requests\<close>

definition example_chat_request :: json where
  "example_chat_request =
     JObj [(''messages'', JArr [
        JObj [(''role'', JStr ''system''), (''content'', JStr ''Be terse.'')],
        JObj [(''role'', JStr ''assistant''),
              (''tool_calls'', JArr [JObj [(''id'', JStr ''abc''), (''type'', JStr ''function''),
                 (''function'', JObj [(''name'', JStr ''foo''), (''arguments'', JStr ''{}'')])]])],
        JObj [(''role'', JStr ''tool''), (''tool_call_id'', JStr ''abc''), (''content'', JStr ''42'')]])]"

definition example_long_id :: string where
  "example_long_id = replicate 80 CHR ''a''"

definition example_tool_call :: json where
  "example_tool_call =
     JObj [(''id'', JStr example_long_id), (''type'', JStr ''function''),
           (''function'', JObj [(''name'', JStr ''foo''), (''arguments'', JStr ''{}'')])]"

definition example_assistant_message :: json where
  "example_assistant_message =
     JObj [(''role'', JStr ''assistant''), (''tool_calls'', JArr [example_tool_call])]"

definition example_tool_message :: json where
  "example_tool_message =
     JObj [(''role'', JStr ''tool''), (''tool_call_id'', JStr example_long_id), (''content'', JStr ''ok'')]"

definition example_responses_items :: "json list" where
  "example_responses_items =
     [JObj [(''type'', JStr ''function_call''), (''call_id'', JStr example_long_id),
            (''name'', JStr ''foo''), (''arguments'', JStr ''{}'')],
      JObj [(''type'', JStr ''function_call_output''), (''call_id'', JStr example_long_id),
            (''output'', JStr ''ok'')],
      JObj [(''type'', JStr ''message''), (''role'', JStr ''system''), (''content'', JStr ''Be terse.'')],
      JObj [(''type'', JStr ''message''), (''role'', JStr ''user''), (''content'', JStr ''Hi'')]]"

section \<open>What the loops compute\<close>

text \<open>
  The converters build their output by threading a document, and a cache of shortened
  call identifiers, through loops. The functions of this section describe the result of
  each loop directly, one item at a time and without the cache; the loops of the source
  are proved equal to them below, and the claims are stated with them.
\<close>

definition cache_ok :: "lib \<Rightarrow> (string \<rightharpoonup> string) \<Rightarrow> bool" where
  \<comment> \<open>every entry of a call-identifier cache holds the shortened form of its
      key; it holds of the empty cache and is kept by both \<open>normalizeCallID\<close>
      functions\<close>
  "cache_ok L cm = (\<forall>k v. cm k = Some v \<longrightarrow> v = shortenCallID L k)"

definition function_call_item :: "lib \<Rightarrow> (string \<rightharpoonup> string) \<Rightarrow> json \<Rightarrow> json" where
  \<comment> \<open>the \<open>function_call\<close> item that lines 213 to 225 build for a
      tool call, with the identifier shortened directly instead of through the cache\<close>
  "function_call_item L nm tc =
     JObj [(''type'', JStr ''function_call''),
           (''call_id'', JStr (shortenCallID L (gjson_String L (gjson_Get (Some tc) [Key ''id''])))),
           (''name'', JStr (mapped_name nm
              (gjson_String L (gjson_Get (Some tc) [Key ''function'', Key ''name''])))),
           (''arguments'', JStr (gjson_String L (gjson_Get (Some tc) [Key ''function'', Key ''arguments''])))]"

definition function_call_output_item :: "lib \<Rightarrow> json \<Rightarrow> json" where
  \<comment> \<open>the \<open>function_call_output\<close> item that lines 137 to 144 build
      for a tool response, with the identifier shortened directly instead of through the
      cache\<close>
  "function_call_output_item L m =
     JObj [(''type'', JStr ''function_call_output''),
           (''call_id'', JStr (shortenCallID L (gjson_String L (gjson_Get (Some m) [Key ''tool_call_id''])))),
           (''output'', JStr (gjson_String L (gjson_Get (Some m) [Key ''content''])))]"

definition function_call_items :: "lib \<Rightarrow> (string \<rightharpoonup> string) \<Rightarrow> json \<Rightarrow> json list" where
  \<comment> \<open>what the loop of lines 209 to 228 appends for a message: one item for
      each tool call of type \<open>function\<close>, when \<open>tool_calls\<close> is an
      array\<close>
  "function_call_items L nm m =
     (if gjson_IsArray (gjson_Get (Some m) [Key ''tool_calls'']) then
        map (function_call_item L nm)
          (filter (\<lambda>tc. gjson_String L (gjson_Get (Some tc) [Key ''type'']) = ''function'')
             (gjson_Array (gjson_Get (Some m) [Key ''tool_calls''])))
      else [])"

definition message_items :: "lib \<Rightarrow> (string \<rightharpoonup> string) \<Rightarrow> json \<Rightarrow> json list" where
  \<comment> \<open>what one iteration of the loop over \<open>messages\<close> (lines 131
      to 231) appends to \<open>input\<close>\<close>
  "message_items L nm m =
     (let role = gjson_String L (gjson_Get (Some m) [Key ''role''])
      in if role = ''tool'' then [function_call_output_item L m]
         else build_message L role m #
              (if role = ''assistant'' then function_call_items L nm m else []))"

definition tool_entry :: "lib \<Rightarrow> (string \<rightharpoonup> string) \<Rightarrow> json \<Rightarrow> json list" where
  \<comment> \<open>what one iteration of the loop over \<open>tools\<close> (lines 286 to
      320) appends to the output \<open>tools\<close>\<close>
  "tool_entry L nm t =
     (let toolType = gjson_String L (gjson_Get (Some t) [Key ''type''])
      in if toolType \<noteq> [] \<and> toolType \<noteq> ''function'' \<and> gjson_IsObject (Some t) then [t]
         else if toolType = ''function'' then [function_tool_item L nm t]
         else [])"

definition chat_items :: "lib \<Rightarrow> json \<Rightarrow> json list" where
  \<comment> \<open>the \<open>input\<close> array after the loop over
      \<open>messages\<close>\<close>
  "chat_items L raw =
     (if gjson_IsArray (gjson_Get (Some raw) [Key ''messages'']) then
        concat (map (message_items L (originalToolNameMap L raw))
                  (gjson_Array (gjson_Get (Some raw) [Key ''messages''])))
      else [])"

definition chat_base :: "lib \<Rightarrow> string \<Rightarrow> json \<Rightarrow> bool \<Rightarrow> json" where
  \<comment> \<open>the output document after line 233: the fixed members, the reasoning
      effort, the model and \<open>input\<close>\<close>
  "chat_base L modelName raw stream =
     JObj [(''instructions'', JStr []),
           (''stream'', JBool stream),
           (''reasoning'',
              JObj [(''effort'', (case gjson_Get (Some raw) [Key ''reasoning_effort''] of
                                    Some v \<Rightarrow> gjson_Value L v | None \<Rightarrow> JStr ''medium'')),
                    (''summary'', JStr ''auto'')]),
           (''parallel_tool_calls'', JBool True),
           (''include'', JArr [JStr ''reasoning.encrypted_content'']),
           (''model'', JStr modelName),
           (''input'', JArr (chat_items L raw))]"

definition wrapped_input :: "string \<Rightarrow> json" where
  \<comment> \<open>the array that lines 17 and 18 put in place of a string
      \<open>input\<close>\<close>
  "wrapped_input s =
     JArr [JObj [(''type'', JStr ''message''), (''role'', JStr ''user''),
                 (''content'', JArr [JObj [(''type'', JStr ''input_text''), (''text'', JStr s)]])]]"

definition fix_role :: "lib \<Rightarrow> json \<Rightarrow> json" where
  \<comment> \<open>the effect of one iteration of the loop of
      \<open>convertSystemRoleToDeveloper\<close> on the item it addresses\<close>
  "fix_role L item =
     (if gjson_String L (gjson_Get (Some item) [Key ''role'']) = ''system''
      then sjson_Set item [Key ''role''] (JStr ''developer'') else item)"

definition fix_call_id :: "lib \<Rightarrow> json \<Rightarrow> json" where
  \<comment> \<open>the effect of one iteration of the loop of
      \<open>normalizeInputCallIDs\<close> on the item it addresses, with the identifier
      shortened directly instead of through the cache\<close>
  "fix_call_id L item =
     (let callID = gjson_String L (gjson_Get (Some item) [Key ''call_id''])
      in if callID = [] \<or> shortenCallID L callID = callID then item
         else sjson_Set item [Key ''call_id''] (JStr (shortenCallID L callID)))"

definition wrap_members :: "(string \<times> json) list \<Rightarrow> (string \<times> json) list" where
  \<comment> \<open>lines 15 to 19 on the members of a request object\<close>
  "wrap_members ms =
     (case map_of ms ''input'' of
        Some (JStr s) \<Rightarrow> AList.update ''input'' (wrapped_input s) ms
      | _ \<Rightarrow> ms)"

definition force_members :: "(string \<times> json) list \<Rightarrow> (string \<times> json) list" where
  \<comment> \<open>lines 21 to 24 on the members of a request object\<close>
  "force_members ms =
     AList.update ''include'' (JArr [JStr ''reasoning.encrypted_content''])
       (AList.update ''parallel_tool_calls'' (JBool True)
          (AList.update ''store'' (JBool False)
             (AList.update ''stream'' (JBool True) ms)))"

definition strip_members :: "(string \<times> json) list \<Rightarrow> (string \<times> json) list" where
  \<comment> \<open>lines 26 to 33 on the members of a request object\<close>
  "strip_members ms =
     delete_first ''user'' (delete_first ''service_tier'' (delete_first ''top_p''
       (delete_first ''temperature'' (delete_first ''max_completion_tokens''
          (delete_first ''max_output_tokens'' ms)))))"

definition fix_members :: "lib \<Rightarrow> (string \<times> json) list \<Rightarrow> (string \<times> json) list" where
  \<comment> \<open>lines 36 and 37 on the members of a request object\<close>
  "fix_members L ms =
     (case map_of ms ''input'' of
        Some (JArr items) \<Rightarrow>
          AList.update ''input'' (JArr (map (\<lambda>item. fix_call_id L (fix_role L item)) items)) ms
      | _ \<Rightarrow> ms)"

definition normalize_members :: "lib \<Rightarrow> (string \<times> json) list \<Rightarrow> (string \<times> json) list" where
  \<comment> \<open>the members of the normalized request object\<close>
  "normalize_members L ms = fix_members L (strip_members (force_members (wrap_members ms)))"

section \<open>Properties of the string primitives\<close>

lemma digit_not_underscore: "d < 10 \<Longrightarrow> digit d \<noteq> CHR ''_''"
proof -
  assume "d < 10"
  then have "d \<in> {0, 1, 2, 3, 4, 5, 6, 7, 8, 9}" by auto
  then show ?thesis by (auto simp: digit_def)
qed

lemma digit_inj: "a < 10 \<Longrightarrow> b < 10 \<Longrightarrow> digit a = digit b \<Longrightarrow> a = b"
proof -
  assume "a < 10" "b < 10" and eq: "digit a = digit b"
  have d: "distinct ''0123456789''" by simp
  from \<open>a < 10\<close> \<open>b < 10\<close> have "a < length ''0123456789''" "b < length ''0123456789''" by simp_all
  with d eq show ?thesis unfolding digit_def by (simp only: nth_eq_iff_index_eq)
qed

lemma Itoa_no_underscore: "CHR ''_'' \<notin> set (Itoa n)"
proof (induction n rule: Itoa.induct)
  case (1 n)
  show ?case
  proof (cases "n < 10")
    case True
    then show ?thesis using digit_not_underscore [of n] by (subst Itoa.simps) auto
  next
    case False
    have "n mod 10 < 10" by simp
    then have "digit (n mod 10) \<noteq> CHR ''_''" by (rule digit_not_underscore)
    with False 1 show ?thesis by (subst Itoa.simps) auto
  qed
qed

lemma Itoa_inj: "Itoa a = Itoa b \<Longrightarrow> a = b"
proof (induction a arbitrary: b rule: Itoa.induct)
  case (1 a)
  have ne: "Itoa k \<noteq> []" for k by (subst Itoa.simps) simp
  show ?case
  proof (cases "a < 10")
    case a: True
    show ?thesis
    proof (cases "b < 10")
      case True
      with a "1.prems" show ?thesis
        by (simp add: Itoa.simps [of a] Itoa.simps [of b] digit_inj)
    next
      case False
      with a "1.prems" ne [of "b div 10"] show ?thesis
        by (simp add: Itoa.simps [of a] Itoa.simps [of b])
    qed
  next
    case a: False
    show ?thesis
    proof (cases "b < 10")
      case True
      with a "1.prems" ne [of "a div 10"] show ?thesis
        by (simp add: Itoa.simps [of a] Itoa.simps [of b])
    next
      case False
      with a "1.prems" have eq: "Itoa (a div 10) = Itoa (b div 10)"
        and dg: "digit (a mod 10) = digit (b mod 10)"
        by (simp_all add: Itoa.simps [of a] Itoa.simps [of b])
      from "1.IH" [OF a eq] have "a div 10 = b div 10" .
      moreover from dg have "a mod 10 = b mod 10" by (intro digit_inj) simp_all
      ultimately show ?thesis by (metis div_mult_mod_eq)
    qed
  qed
qed

lemma Itoa_length: "0 < k \<Longrightarrow> n < 10 ^ k \<Longrightarrow> length (Itoa n) \<le> k"
proof (induction n arbitrary: k rule: Itoa.induct)
  case (1 n)
  show ?case
  proof (cases "n < 10")
    case True
    with "1.prems" show ?thesis by (simp add: Itoa.simps [of n])
  next
    case False
    with "1.prems" obtain k' where k: "k = Suc k'" by (cases k) auto
    with False "1.prems" have "0 < k'" by (cases k') auto
    moreover from k "1.prems" have "n div 10 < 10 ^ k'"
      by (simp add: less_mult_imp_div_less mult.commute)
    ultimately have "length (Itoa (n div 10)) \<le> k'" using "1.IH" [OF False] by blast
    with False k show ?thesis by (simp add: Itoa.simps [of n])
  qed
qed

section \<open>The collision loop terminates\<close>

lemma suffixed_shape:
  "\<exists>pre. suffixed base i = pre @ CHR ''_'' # Itoa i \<and> length pre \<le> length base"
  by (auto simp: suffixed_def Let_def)

lemma after_last_underscore:
  assumes "CHR ''_'' \<notin> set a" "CHR ''_'' \<notin> set b" "p @ CHR ''_'' # a = q @ CHR ''_'' # b"
  shows "a = b"
proof -
  from assms(3) have "rev a @ CHR ''_'' # rev p = rev b @ CHR ''_'' # rev q"
    by (metis rev.simps(2) rev_append append_assoc append_Cons append_Nil)
  then have "takeWhile (\<lambda>c. c \<noteq> CHR ''_'') (rev a @ CHR ''_'' # rev p)
    = takeWhile (\<lambda>c. c \<noteq> CHR ''_'') (rev b @ CHR ''_'' # rev q)" by simp
  moreover have "takeWhile (\<lambda>c. c \<noteq> CHR ''_'') (rev a) = rev a"
    "takeWhile (\<lambda>c. c \<noteq> CHR ''_'') (rev b) = rev b"
    using assms(1,2) by (auto simp: takeWhile_eq_all_conv)
  ultimately have "rev a = rev b" using assms(1,2) by (simp add: takeWhile_tail)
  then show ?thesis by simp
qed

lemma suffixed_inj: "suffixed base i = suffixed base j \<Longrightarrow> i = j"
proof -
  assume eq: "suffixed base i = suffixed base j"
  obtain p where p: "suffixed base i = p @ CHR ''_'' # Itoa i" using suffixed_shape by blast
  obtain q where q: "suffixed base j = q @ CHR ''_'' # Itoa j" using suffixed_shape by blast
  from eq p q have "p @ CHR ''_'' # Itoa i = q @ CHR ''_'' # Itoa j" by simp
  then have "Itoa i = Itoa j"
    by (rule after_last_underscore [OF Itoa_no_underscore Itoa_no_underscore])
  then show ?thesis by (rule Itoa_inj)
qed

lemma finite_tried: "finite {j. suffixed base j \<in> set used}"
proof -
  have "inj (suffixed base)" by (rule injI) (rule suffixed_inj)
  then have "finite (suffixed base -` set used)" by (intro finite_vimageI) simp_all
  then show ?thesis by (simp add: vimage_def)
qed

termination makeUnique_loop
proof (relation "measure (\<lambda>(used, base, i). card {j. i \<le> j \<and> suffixed base j \<in> set used})")
  show "wf (measure (\<lambda>(used, base, i). card {j. i \<le> j \<and> suffixed base j \<in> set used}))" by simp
next
  fix used :: "string list" and base :: string and i :: nat
  assume "\<not> suffixed base i \<notin> set used"
  then have mem: "suffixed base i \<in> set used" by simp
  have fin: "finite {j. i \<le> j \<and> suffixed base j \<in> set used}"
    by (rule finite_subset [OF _ finite_tried [of base used]]) auto
  have "i \<in> {j. i \<le> j \<and> suffixed base j \<in> set used}"
    and "i \<notin> {j. i + 1 \<le> j \<and> suffixed base j \<in> set used}"
    and "{j. i + 1 \<le> j \<and> suffixed base j \<in> set used} \<subseteq> {j. i \<le> j \<and> suffixed base j \<in> set used}"
    using mem by auto
  then have "{j. i + 1 \<le> j \<and> suffixed base j \<in> set used} \<subset> {j. i \<le> j \<and> suffixed base j \<in> set used}"
    by blast
  with fin have "card {j. i + 1 \<le> j \<and> suffixed base j \<in> set used} < card {j. i \<le> j \<and> suffixed base j \<in> set used}"
    by (rule psubset_card_mono)
  then show "((used, base, i + 1), (used, base, i)) \<in> measure (\<lambda>(used, base, i). card {j. i \<le> j \<and> suffixed base j \<in> set used})"
    by simp
qed

declare makeUnique_loop.simps [simp del]

lemma makeUnique_loop_fresh: "makeUnique_loop used base i \<notin> set used"
  by (induction used base i rule: makeUnique_loop.induct)
     (subst makeUnique_loop.simps, auto)

lemma makeUnique_loop_index:
  "\<exists>k\<ge>i. makeUnique_loop used base i = suffixed base k \<and> (\<forall>j. i \<le> j \<and> j < k \<longrightarrow> suffixed base j \<in> set used)"
proof (induction used base i rule: makeUnique_loop.induct)
  case (1 used base i)
  show ?case
  proof (cases "suffixed base i \<in> set used")
    case False
    then have "makeUnique_loop used base i = suffixed base i" by (subst makeUnique_loop.simps) simp
    then show ?thesis by (intro exI [of _ i]) auto
  next
    case True
    then have step: "makeUnique_loop used base i = makeUnique_loop used base (i + 1)"
      by (subst makeUnique_loop.simps) simp
    from 1 True obtain k where k: "i + 1 \<le> k" "makeUnique_loop used base (i + 1) = suffixed base k"
      "\<forall>j. i + 1 \<le> j \<and> j < k \<longrightarrow> suffixed base j \<in> set used" by auto
    have "\<forall>j. i \<le> j \<and> j < k \<longrightarrow> suffixed base j \<in> set used"
    proof (intro allI impI)
      fix j assume "i \<le> j \<and> j < k"
      then consider "j = i" | "i + 1 \<le> j \<and> j < k" by linarith
      then show "suffixed base j \<in> set used" using True k(3) by cases auto
    qed
    with k step show ?thesis by (intro exI [of _ k]) simp
  qed
qed

lemma makeUnique_loop_bound:
  "\<exists>k. i \<le> k \<and> k \<le> i + length used \<and> makeUnique_loop used base i = suffixed base k"
proof -
  obtain k where k: "i \<le> k" "makeUnique_loop used base i = suffixed base k"
    "\<forall>j. i \<le> j \<and> j < k \<longrightarrow> suffixed base j \<in> set used"
    using makeUnique_loop_index [of i used base] by blast
  have "suffixed base ` {i..<k} \<subseteq> set used" using k(3) by auto
  then have "card (suffixed base ` {i..<k}) \<le> card (set used)" by (intro card_mono) simp_all
  moreover have "inj_on (suffixed base) {i..<k}" by (rule inj_onI) (rule suffixed_inj)
  then have "card (suffixed base ` {i..<k}) = k - i" by (simp add: card_image)
  moreover have "card (set used) \<le> length used" by (rule card_length)
  ultimately have "k \<le> i + length used" by linarith
  with k show ?thesis by blast
qed

lemma suffixed_length: "length (Itoa i) < limit \<Longrightarrow> length (suffixed base i) \<le> limit"
  by (auto simp: suffixed_def Let_def limit_def)

lemma baseCandidate_length: "length (baseCandidate n) \<le> limit"
  by (simp add: baseCandidate_def Let_def limit_def)

lemma shortenNameIfNeeded_length: "length (shortenNameIfNeeded n) \<le> limit"
  by (simp add: shortenNameIfNeeded_def Let_def limit_def)

lemma LastIndex_scan_none: "\<not> Contains s sub \<Longrightarrow> LastIndex_scan s sub i found = found"
  by (induction s arbitrary: i found) auto

lemma LastIndex_scan_last:
  "sub \<noteq> [] \<Longrightarrow> \<not> Contains (tl (sub @ rest)) sub \<Longrightarrow>
   LastIndex_scan (pre @ sub @ rest) sub i found = i + int (length pre)"
proof (induction pre arbitrary: i found)
  case Nil
  then obtain c cs where s: "sub @ rest = c # cs" by (cases "sub @ rest") auto
  have "HasPrefix (sub @ rest) sub" by (simp add: HasPrefix_def)
  with Nil s show ?case by (simp add: LastIndex_scan_none)
next
  case (Cons p ps)
  then show ?case by simp
qed

lemma LastIndex_last:
  "\<not> Contains (CHR ''_'' # seg) ''__'' \<Longrightarrow> LastIndex (pre @ ''__'' @ seg) ''__'' = int (length pre)"
  using LastIndex_scan_last [of "''__''" seg pre 0 "- 1"] by (simp add: LastIndex_def)

lemma mcp_candidate:
  assumes "HasPrefix name ''mcp__''" "name = pre @ ''__'' @ seg" "\<not> Contains (CHR ''_'' # seg) ''__''"
  shows "LastIndex name ''__'' > 0 \<and> drop (nat (LastIndex name ''__'' + 2)) name = seg"
proof -
  have idx: "LastIndex name ''__'' = int (length pre)"
    unfolding assms(2) using assms(3) by (rule LastIndex_last)
  have "pre \<noteq> []" using assms(1,2) by (auto simp: HasPrefix_def)
  moreover have "nat (int (length pre) + 2) = length pre + 2" by simp
  moreover have "drop (length pre + 2) (pre @ ''__'' @ seg) = seg" by simp
  ultimately show ?thesis unfolding idx using assms(2) by simp
qed

lemma makeUnique_fresh: "makeUnique used cand \<notin> set used"
  by (simp add: makeUnique_def makeUnique_loop_fresh)

lemma makeUnique_length:
  assumes "length cand \<le> limit" "length used < 10 ^ 63 - 1"
  shows "length (makeUnique used cand) \<le> limit"
proof (cases "cand \<in> set used")
  case False
  with assms show ?thesis by (simp add: makeUnique_def)
next
  case True
  obtain k where k: "k \<le> 1 + length used" "makeUnique_loop used cand 1 = suffixed cand k"
    using makeUnique_loop_bound [of 1 used cand] by blast
  from k(1) assms(2) have "k < 10 ^ 63" by simp
  then have "length (Itoa k) \<le> 63" by (intro Itoa_length) simp_all
  then have "length (suffixed cand k) \<le> limit" by (intro suffixed_length) (simp add: limit_def)
  with True k(2) show ?thesis by (simp add: makeUnique_def)
qed

lemma buildShortNameMap_loop_inv:
  assumes "distinct names" "set names \<inter> dom m = {}" "length used + length names < 10 ^ 63"
  shows "dom (snd (buildShortNameMap_loop names (used, m))) = dom m \<union> set names
       \<and> (\<forall>k. k \<notin> set names \<longrightarrow> snd (buildShortNameMap_loop names (used, m)) k = m k)
       \<and> distinct (map (\<lambda>n. the (snd (buildShortNameMap_loop names (used, m)) n)) names)
       \<and> (\<forall>n\<in>set names. the (snd (buildShortNameMap_loop names (used, m)) n) \<notin> set used
                         \<and> length (the (snd (buildShortNameMap_loop names (used, m)) n)) \<le> limit)"
  using assms
proof (induction names arbitrary: used m)
  case Nil
  then show ?case by simp
next
  case (Cons n ns)
  define uniq where "uniq = makeUnique used (baseCandidate n)"
  define m' where "m' = snd (buildShortNameMap_loop ns (uniq # used, m(n \<mapsto> uniq)))"
  have step: "snd (buildShortNameMap_loop (n # ns) (used, m)) = m'"
    by (simp add: m'_def uniq_def Let_def)
  have fresh: "uniq \<notin> set used" unfolding uniq_def by (rule makeUnique_fresh)
  have len: "length uniq \<le> limit" unfolding uniq_def
    using Cons.prems(3) by (intro makeUnique_length baseCandidate_length) simp
  have d: "distinct ns" and n: "n \<notin> set ns" using Cons.prems(1) by simp_all
  have disj: "set ns \<inter> dom (m(n \<mapsto> uniq)) = {}" using Cons.prems(2) n by auto
  have sz: "length (uniq # used) + length ns < 10 ^ 63" using Cons.prems(3) by simp
  note IH = Cons.IH [OF d disj sz, folded m'_def]
  from IH have dom: "dom m' = dom (m(n \<mapsto> uniq)) \<union> set ns"
    and keep: "\<And>k. k \<notin> set ns \<Longrightarrow> m' k = (m(n \<mapsto> uniq)) k"
    and dist: "distinct (map (\<lambda>n. the (m' n)) ns)"
    and rest: "\<And>x. x \<in> set ns \<Longrightarrow> the (m' x) \<notin> set (uniq # used) \<and> length (the (m' x)) \<le> limit"
    by blast+
  from keep [OF n] have mn: "m' n = Some uniq" by simp
  have 1: "dom m' = dom m \<union> set (n # ns)" using dom by auto
  have 2: "\<forall>k. k \<notin> set (n # ns) \<longrightarrow> m' k = m k" using keep by auto
  have 3: "distinct (map (\<lambda>n. the (m' n)) (n # ns))" using dist rest mn by auto
  have 4: "\<forall>x\<in>set (n # ns). the (m' x) \<notin> set used \<and> length (the (m' x)) \<le> limit"
    using rest mn fresh len by auto
  from 1 2 3 4 show ?case unfolding step by blast
qed

section \<open>The message loop of the Chat-Completions Converter\<close>

subsection \<open>Objects\<close>

lemma Get_obj_key [simp]: "gjson_Get (Some (JObj ms)) (Key k # p) = gjson_Get (map_of ms k) p"
  by simp

lemma Get_None: "gjson_Get None p = None"
  by (cases p) simp_all

lemma Get_path_split: "gjson_Get r (s # p) = gjson_Get (gjson_Get r [s]) p"
  by (cases r) (simp_all add: Get_None)

lemma IsObject_Set_key: "gjson_IsObject (Some out) \<Longrightarrow> gjson_IsObject (Some (sjson_Set out (Key k # p) v))"
  by (cases out) simp_all

lemma Get_Set_other:
  "gjson_IsObject (Some out) \<Longrightarrow> k \<noteq> k' \<Longrightarrow>
   gjson_Get (Some (sjson_Set out (Key k # p) v)) (Key k' # q) = gjson_Get (Some out) (Key k' # q)"
  by (cases out) (simp_all add: update_conv')

lemma Set_append_obj:
  "map_of ms k = Some (JArr xs) \<Longrightarrow>
   sjson_Set (JObj ms) [Key k, Append] v = JObj (AList.update k (JArr (xs @ [v])) ms)"
  by simp

subsection \<open>The call-identifier cache\<close>

lemma cache_ok_empty: "cache_ok L Map.empty"
  by (simp add: cache_ok_def)

lemma chat_normalizeCallID_ok:
  assumes "cache_ok L cm"
  shows "fst (chat_normalizeCallID L i cm) = shortenCallID L i"
    and "cache_ok L (snd (chat_normalizeCallID L i cm))"
proof -
  have short: "shortenCallID L i = i" if "i = [] \<or> length i \<le> 64"
    using that by (auto simp: shortenCallID_def limit_def)
  show "fst (chat_normalizeCallID L i cm) = shortenCallID L i"
    using assms short by (auto simp: chat_normalizeCallID_def cache_ok_def Let_def split: option.splits)
  show "cache_ok L (snd (chat_normalizeCallID L i cm))"
    using assms by (auto simp: chat_normalizeCallID_def cache_ok_def Let_def split: option.splits)
qed

subsection \<open>The items a message contributes\<close>

lemma tool_calls_loop_items:
  assumes "map_of ms ''input'' = Some (JArr xs)" "cache_ok L cm"
  shows "\<exists>cm'. tool_calls_loop L nm tcs (JObj ms, cm) =
           (JObj (AList.update ''input''
              (JArr (xs @ map (function_call_item L nm)
                 (filter (\<lambda>tc. gjson_String L (gjson_Get (Some tc) [Key ''type'']) = ''function'') tcs))) ms),
            cm') \<and> cache_ok L cm'"
  using assms
proof (induction tcs arbitrary: ms xs cm)
  case Nil
  then show ?case by (auto simp: update_triv)
next
  case (Cons tc tcs)
  show ?case
  proof (cases "gjson_String L (gjson_Get (Some tc) [Key ''type'']) = ''function''")
    case False
    with Cons.IH [OF Cons.prems] show ?thesis by simp
  next
    case True
    let ?i = "gjson_String L (gjson_Get (Some tc) [Key ''id''])"
    define cm1 where "cm1 = snd (chat_normalizeCallID L ?i cm)"
    have n: "chat_normalizeCallID L ?i cm = (shortenCallID L ?i, cm1)"
      using chat_normalizeCallID_ok(1) [OF Cons.prems(2), of ?i] by (simp add: cm1_def prod_eq_iff)
    have ok1: "cache_ok L cm1" unfolding cm1_def by (rule chat_normalizeCallID_ok(2) [OF Cons.prems(2)])
    define ms1 where "ms1 = AList.update ''input'' (JArr (xs @ [function_call_item L nm tc])) ms"
    have m1: "map_of ms1 ''input'' = Some (JArr (xs @ [function_call_item L nm tc]))"
      by (simp add: ms1_def update_conv')
    have step: "tool_calls_loop L nm (tc # tcs) (JObj ms, cm) = tool_calls_loop L nm tcs (JObj ms1, cm1)"
      using True Cons.prems(1) n
      by (simp add: ms1_def function_call_item_def Let_def)
    from Cons.IH [OF m1 ok1] obtain cm' where
      "tool_calls_loop L nm tcs (JObj ms1, cm1) =
         (JObj (AList.update ''input''
            (JArr ((xs @ [function_call_item L nm tc]) @ map (function_call_item L nm)
               (filter (\<lambda>tc. gjson_String L (gjson_Get (Some tc) [Key ''type'']) = ''function'') tcs))) ms1),
          cm')" and "cache_ok L cm'" by blast
    with step True show ?thesis by (simp add: ms1_def)
  qed
qed

lemma convert_message_items:
  assumes "map_of ms ''input'' = Some (JArr xs)" "cache_ok L cm"
  shows "\<exists>cm'. convert_message L nm m (JObj ms, cm) =
           (JObj (AList.update ''input'' (JArr (xs @ message_items L nm m)) ms), cm') \<and> cache_ok L cm'"
proof (cases "gjson_String L (gjson_Get (Some m) [Key ''role'']) = ''tool''")
  case True
  let ?i = "gjson_String L (gjson_Get (Some m) [Key ''tool_call_id''])"
  define cm1 where "cm1 = snd (chat_normalizeCallID L ?i cm)"
  have n: "chat_normalizeCallID L ?i cm = (shortenCallID L ?i, cm1)"
    using chat_normalizeCallID_ok(1) [OF assms(2), of ?i] by (simp add: cm1_def prod_eq_iff)
  have ok1: "cache_ok L cm1" unfolding cm1_def by (rule chat_normalizeCallID_ok(2) [OF assms(2)])
  have "convert_message L nm m (JObj ms, cm) =
      (JObj (AList.update ''input'' (JArr (xs @ message_items L nm m)) ms), cm1)"
    using True assms(1) n
    by (simp add: convert_message_def message_items_def function_call_output_item_def Let_def)
  with ok1 show ?thesis by blast
next
  case False
  define role where "role = gjson_String L (gjson_Get (Some m) [Key ''role''])"
  have r: "gjson_String L (gjson_Get_seg (Key ''role'') m) = role" by (simp add: role_def)
  have nt: "role \<noteq> ''tool''" using False by (simp add: role_def)
  define ms1 where "ms1 = AList.update ''input'' (JArr (xs @ [build_message L role m])) ms"
  have m1: "map_of ms1 ''input'' = Some (JArr (xs @ [build_message L role m]))"
    by (simp add: ms1_def update_conv')
  show ?thesis
  proof (cases "role = ''assistant'' \<and> gjson_IsArray (gjson_Get (Some m) [Key ''tool_calls''])")
    case True
    then obtain tcs where tcs: "gjson_Get (Some m) [Key ''tool_calls''] = Some (JArr tcs)"
      by (cases "gjson_Get (Some m) [Key ''tool_calls'']" rule: gjson_IsArray.cases) auto
    have step: "convert_message L nm m (JObj ms, cm) = tool_calls_loop L nm tcs (JObj ms1, cm)"
      using nt True assms(1) tcs
      by (simp add: convert_message_def r ms1_def Let_def gjson_Exists_def)
    from tool_calls_loop_items [OF m1 assms(2), of nm tcs] obtain cm' where
      "tool_calls_loop L nm tcs (JObj ms1, cm) =
         (JObj (AList.update ''input''
            (JArr ((xs @ [build_message L role m]) @ map (function_call_item L nm)
               (filter (\<lambda>tc. gjson_String L (gjson_Get (Some tc) [Key ''type'']) = ''function'') tcs))) ms1),
          cm')" and "cache_ok L cm'" by blast
    with step nt True tcs show ?thesis
      by (simp add: ms1_def message_items_def function_call_items_def r)
  next
    case F2: False
    have "convert_message L nm m (JObj ms, cm) = (JObj ms1, cm)"
      using nt F2 assms(1)
      by (auto simp: convert_message_def r ms1_def Let_def gjson_Exists_def)
    moreover have "message_items L nm m = [build_message L role m]"
      using nt F2 by (auto simp: message_items_def function_call_items_def r)
    ultimately show ?thesis using assms(2) by (simp add: ms1_def)
  qed
qed

lemma messages_loop_items:
  assumes "map_of ms ''input'' = Some (JArr xs)" "cache_ok L cm"
  shows "\<exists>cm'. messages_loop L nm msgs (JObj ms, cm) =
           (JObj (AList.update ''input'' (JArr (xs @ concat (map (message_items L nm) msgs))) ms), cm')
         \<and> cache_ok L cm'"
  using assms
proof (induction msgs arbitrary: ms xs cm)
  case Nil
  then show ?case by (auto simp: update_triv)
next
  case (Cons m msgs)
  from convert_message_items [OF Cons.prems, of nm m] obtain cm1 where
    s: "convert_message L nm m (JObj ms, cm) =
          (JObj (AList.update ''input'' (JArr (xs @ message_items L nm m)) ms), cm1)"
    and ok1: "cache_ok L cm1" by blast
  have m1: "map_of (AList.update ''input'' (JArr (xs @ message_items L nm m)) ms) ''input''
      = Some (JArr (xs @ message_items L nm m))" by (simp add: update_conv')
  from Cons.IH [OF m1 ok1] s show ?case by simp
qed

subsection \<open>The phases after the message loop\<close>

lemma IsObject_cases: "gjson_IsObject (Some out) \<Longrightarrow> \<exists>ms. out = JObj ms"
  by (cases out) simp_all

lemma map_response_format_frame:
  assumes "gjson_IsObject (Some out)"
  shows "gjson_IsObject (Some (map_response_format L raw out))"
    and "k \<noteq> ''text'' \<Longrightarrow> gjson_Get (Some (map_response_format L raw out)) (Key k # q)
           = gjson_Get (Some out) (Key k # q)"
  using assms
  by (auto simp: map_response_format_def Let_def IsObject_Set_key Get_Set_other
           simp del: sjson_Set.simps gjson_Get.simps split: option.splits)

lemma tools_loop_items:
  "map_of ms ''tools'' = Some (JArr xs) \<Longrightarrow>
   tools_loop L nm arr (JObj ms) =
     JObj (AList.update ''tools'' (JArr (xs @ concat (map (tool_entry L nm) arr))) ms)"
proof (induction arr arbitrary: ms xs)
  case Nil
  then show ?case by (simp add: update_triv)
next
  case (Cons t arr)
  have m1: "map_of (AList.update ''tools'' (JArr (xs @ [y])) ms) ''tools'' = Some (JArr (xs @ [y]))" for y
    by (simp add: update_conv')
  show ?case
    using Cons.prems Cons.IH [OF m1] Cons.IH [OF Cons.prems]
    by (simp add: tool_entry_def Let_def)
qed

lemma map_tools_obj:
  "map_tools L nm raw (JObj ms) =
     (if gjson_IsArray (gjson_Get (Some raw) [Key ''tools'']) \<and>
         gjson_Array (gjson_Get (Some raw) [Key ''tools'']) \<noteq> []
      then JObj (AList.update ''tools''
             (JArr (concat (map (tool_entry L nm) (gjson_Array (gjson_Get (Some raw) [Key ''tools'']))))) ms)
      else JObj ms)"
proof -
  have m0: "map_of (AList.update ''tools'' (JArr []) ms) ''tools'' = Some (JArr [])"
    by (simp add: update_conv')
  show ?thesis using tools_loop_items [OF m0, of L nm]
    by (simp add: map_tools_def Let_def del: gjson_Get.simps)
qed

lemma map_tools_frame:
  assumes "gjson_IsObject (Some out)"
  shows "gjson_IsObject (Some (map_tools L nm raw out))"
    and "k \<noteq> ''tools'' \<Longrightarrow> gjson_Get (Some (map_tools L nm raw out)) (Key k # q)
           = gjson_Get (Some out) (Key k # q)"
proof -
  from assms obtain ms where out: "out = JObj ms" using IsObject_cases by blast
  show "gjson_IsObject (Some (map_tools L nm raw out))" unfolding out map_tools_obj by simp
  show "gjson_Get (Some (map_tools L nm raw out)) (Key k # q) = gjson_Get (Some out) (Key k # q)"
    if "k \<noteq> ''tools''"
    unfolding out map_tools_obj using that by (simp add: update_conv')
qed

lemma map_tool_choice_frame:
  assumes "gjson_IsObject (Some out)"
  shows "gjson_IsObject (Some (map_tool_choice L nm raw out))"
    and "k \<noteq> ''tool_choice'' \<Longrightarrow> gjson_Get (Some (map_tool_choice L nm raw out)) (Key k # q)
           = gjson_Get (Some out) (Key k # q)"
  using assms
  by (auto simp: map_tool_choice_def Let_def IsObject_Set_key Get_Set_other
           simp del: sjson_Set.simps gjson_Get.simps split: option.splits)

subsection \<open>The converter as a sequence of phases\<close>

lemma Convert_phases:
  "ConvertOpenAIRequestToCodex L modelName raw stream =
     sjson_Set
       (map_tool_choice L (originalToolNameMap L raw) raw
          (map_tools L (originalToolNameMap L raw) raw
             (map_response_format L raw (chat_base L modelName raw stream))))
       [Key ''store''] (JBool False)"
proof -
  define e where "e = (case gjson_Get (Some raw) [Key ''reasoning_effort''] of
                                    Some v \<Rightarrow> gjson_Value L v | None \<Rightarrow> JStr ''medium'')"
  define ms0 where "ms0 = [(''instructions'', JStr []),
           (''stream'', JBool stream),
           (''reasoning'', JObj [(''effort'', e), (''summary'', JStr ''auto'')]),
           (''parallel_tool_calls'', JBool True),
           (''include'', JArr [JStr ''reasoning.encrypted_content'']),
           (''model'', JStr modelName),
           (''input'', JArr [])]"
  have scaffold: "sjson_Set (sjson_Set (sjson_Set (sjson_Set (sjson_Set
           (case gjson_Get (Some raw) [Key ''reasoning_effort''] of
              Some v \<Rightarrow> sjson_Set (sjson_Set (JObj [(''instructions'', JStr [])]) [Key ''stream''] (JBool stream))
                          [Key ''reasoning'', Key ''effort''] (gjson_Value L v)
            | None \<Rightarrow> sjson_Set (sjson_Set (JObj [(''instructions'', JStr [])]) [Key ''stream''] (JBool stream))
                          [Key ''reasoning'', Key ''effort''] (JStr ''medium''))
           [Key ''parallel_tool_calls''] (JBool True))
           [Key ''reasoning'', Key ''summary''] (JStr ''auto''))
           [Key ''include''] (JArr [JStr ''reasoning.encrypted_content'']))
           [Key ''model''] (JStr modelName))
           [Key ''input''] (JArr []) = JObj ms0"
    by (simp add: ms0_def e_def split: option.splits)
  have in0: "map_of ms0 ''input'' = Some (JArr [])" by (simp add: ms0_def)
  have upd: "AList.update ''input'' (JArr xs) ms0 =
        [(''instructions'', JStr []),
           (''stream'', JBool stream),
           (''reasoning'', JObj [(''effort'', e), (''summary'', JStr ''auto'')]),
           (''parallel_tool_calls'', JBool True),
           (''include'', JArr [JStr ''reasoning.encrypted_content'']),
           (''model'', JStr modelName),
           (''input'', JArr xs)]" for xs
    by (simp add: ms0_def)
  have loop: "fst (if gjson_IsArray (gjson_Get (Some raw) [Key ''messages''])
               then messages_loop L (originalToolNameMap L raw)
                      (gjson_Array (gjson_Get (Some raw) [Key ''messages''])) (JObj ms0, Map.empty)
               else (JObj ms0, Map.empty)) = chat_base L modelName raw stream"
  proof (cases "gjson_IsArray (gjson_Get (Some raw) [Key ''messages''])")
    case True
    from messages_loop_items [OF in0 cache_ok_empty, of L "originalToolNameMap L raw"
        "gjson_Array (gjson_Get (Some raw) [Key ''messages''])"]
    show ?thesis using True
      by (auto simp: chat_base_def chat_items_def upd e_def simp del: gjson_Get.simps)
  next
    case False
    then show ?thesis
      by (simp add: chat_base_def chat_items_def ms0_def e_def del: gjson_Get.simps)
  qed
  show ?thesis
    unfolding ConvertOpenAIRequestToCodex_def Let_def scaffold
    using loop by (simp add: case_prod_beta del: gjson_Get.simps sjson_Set.simps)
qed

lemma IsObject_chat_base: "gjson_IsObject (Some (chat_base L modelName raw stream))"
  by (simp add: chat_base_def)

lemma Convert_frame:
  assumes "k \<noteq> ''store''" "k \<noteq> ''tool_choice''"
  shows "gjson_Get (Some (ConvertOpenAIRequestToCodex L modelName raw stream)) (Key k # q) =
         gjson_Get (Some (map_tools L (originalToolNameMap L raw) raw
             (map_response_format L raw (chat_base L modelName raw stream)))) (Key k # q)"
proof -
  have o1: "gjson_IsObject (Some (map_response_format L raw (chat_base L modelName raw stream)))"
    by (rule map_response_format_frame(1) [OF IsObject_chat_base])
  have o2: "gjson_IsObject (Some (map_tools L (originalToolNameMap L raw) raw
             (map_response_format L raw (chat_base L modelName raw stream))))"
    by (rule map_tools_frame(1) [OF o1])
  have o3: "gjson_IsObject (Some (map_tool_choice L (originalToolNameMap L raw) raw
          (map_tools L (originalToolNameMap L raw) raw
             (map_response_format L raw (chat_base L modelName raw stream)))))"
    by (rule map_tool_choice_frame(1) [OF o2])
  have "gjson_Get (Some (ConvertOpenAIRequestToCodex L modelName raw stream)) (Key k # q) =
      gjson_Get (Some (map_tool_choice L (originalToolNameMap L raw) raw
          (map_tools L (originalToolNameMap L raw) raw
             (map_response_format L raw (chat_base L modelName raw stream))))) (Key k # q)"
    unfolding Convert_phases using assms(1) by (intro Get_Set_other [OF o3]) simp
  also have "\<dots> = gjson_Get (Some (map_tools L (originalToolNameMap L raw) raw
             (map_response_format L raw (chat_base L modelName raw stream)))) (Key k # q)"
    using assms(2) by (rule map_tool_choice_frame(2) [OF o2])
  finally show ?thesis .
qed

lemma Convert_input:
  "gjson_Get (Some (ConvertOpenAIRequestToCodex L modelName raw stream)) [Key ''input'']
     = Some (JArr (chat_items L raw))"
proof -
  have "gjson_Get (Some (ConvertOpenAIRequestToCodex L modelName raw stream)) [Key ''input'']
      = gjson_Get (Some (chat_base L modelName raw stream)) [Key ''input'']"
    by (simp add: Convert_frame map_tools_frame(2) map_response_format_frame
          IsObject_chat_base del: gjson_Get.simps)
  then show ?thesis by (simp add: chat_base_def)
qed

lemma content_items_loop_frame:
  assumes "gjson_IsObject (Some msg)"
  shows "gjson_IsObject (Some (content_items_loop L role items msg)) \<and>
         (k \<noteq> ''content'' \<longrightarrow> gjson_Get (Some (content_items_loop L role items msg)) (Key k # q)
           = gjson_Get (Some msg) (Key k # q))"
  using assms
proof (induction items arbitrary: msg)
  case Nil
  then show ?case by simp
next
  case (Cons it items)
  have o: "gjson_IsObject (Some (sjson_Set msg [Key ''content'', Append] part))" for part
    by (rule IsObject_Set_key [OF Cons.prems])
  have g: "k \<noteq> ''content'' \<Longrightarrow>
      gjson_Get (Some (sjson_Set msg [Key ''content'', Append] part)) (Key k # q)
        = gjson_Get (Some msg) (Key k # q)" for part
    by (rule Get_Set_other [OF Cons.prems]) simp
  have "(\<exists>part. content_items_loop L role (it # items) msg
            = content_items_loop L role items (sjson_Set msg [Key ''content'', Append] part))
        \<or> content_items_loop L role (it # items) msg = content_items_loop L role items msg"
    by (auto simp: Let_def simp del: sjson_Set.simps gjson_Get.simps)
  then show ?case
  proof (elim disjE exE)
    fix part
    assume "content_items_loop L role (it # items) msg
            = content_items_loop L role items (sjson_Set msg [Key ''content'', Append] part)"
    with Cons.IH [OF o, of part] g [of part] show ?thesis by simp
  next
    assume "content_items_loop L role (it # items) msg = content_items_loop L role items msg"
    with Cons.IH [OF Cons.prems] show ?thesis by simp
  qed
qed

lemma build_message_fields:
  "gjson_Get (Some (build_message L role m)) [Key ''type''] = Some (JStr ''message'')"
  "gjson_Get (Some (build_message L role m)) [Key ''role'']
     = Some (JStr (if role = ''system'' then ''developer'' else role))"
proof -
  define rr where "rr = (if role = ''system'' then ''developer'' else role)"
  define base where "base = JObj [(''type'', JStr ''message''), (''role'', JStr rr), (''content'', JArr [])]"
  have o: "gjson_IsObject (Some base)" by (simp add: base_def)
  have "build_message L role m = base
      \<or> (\<exists>part. build_message L role m = sjson_Set base [Key ''content'', Append] part)
      \<or> (\<exists>items. build_message L role m = content_items_loop L role items base)"
    by (auto simp: build_message_def base_def rr_def Let_def)
  then consider "build_message L role m = base"
    | part where "build_message L role m = sjson_Set base [Key ''content'', Append] part"
    | items where "build_message L role m = content_items_loop L role items base"
    by blast
  then have "gjson_Get (Some (build_message L role m)) (Key k # []) = gjson_Get (Some base) (Key k # [])"
    if "k \<noteq> ''content''" for k
  proof cases
    case 1
    then show ?thesis by simp
  next
    case 2
    show ?thesis unfolding 2 using that by (intro Get_Set_other [OF o]) simp
  next
    case 3
    show ?thesis unfolding 3 using content_items_loop_frame [OF o, of L role items k "[]"] that
      by blast
  qed
  from this [of "''type''"] this [of "''role''"]
  show "gjson_Get (Some (build_message L role m)) [Key ''type''] = Some (JStr ''message'')"
    and "gjson_Get (Some (build_message L role m)) [Key ''role'']
     = Some (JStr (if role = ''system'' then ''developer'' else role))"
    by (simp_all add: base_def rr_def)
qed

lemma Convert_text:
  "gjson_Get (Some (ConvertOpenAIRequestToCodex L modelName raw stream)) (Key ''text'' # q)
     = gjson_Get (Some (map_response_format L raw (chat_base L modelName raw stream))) (Key ''text'' # q)"
proof -
  have o1: "gjson_IsObject (Some (map_response_format L raw (chat_base L modelName raw stream)))"
    by (rule map_response_format_frame(1) [OF IsObject_chat_base])
  have "gjson_Get (Some (ConvertOpenAIRequestToCodex L modelName raw stream)) (Key ''text'' # q)
      = gjson_Get (Some (map_tools L (originalToolNameMap L raw) raw
             (map_response_format L raw (chat_base L modelName raw stream)))) (Key ''text'' # q)"
    by (rule Convert_frame) simp_all
  also have "\<dots> = gjson_Get (Some (map_response_format L raw (chat_base L modelName raw stream)))
      (Key ''text'' # q)"
    by (rule map_tools_frame(2) [OF o1]) simp
  finally show ?thesis .
qed

lemma Convert_tools:
  "gjson_Get (Some (ConvertOpenAIRequestToCodex L modelName raw stream)) [Key ''tools'']
     = (if gjson_IsArray (gjson_Get (Some raw) [Key ''tools'']) \<and>
           gjson_Array (gjson_Get (Some raw) [Key ''tools'']) \<noteq> []
        then Some (JArr (concat (map (tool_entry L (originalToolNameMap L raw))
                (gjson_Array (gjson_Get (Some raw) [Key ''tools''])))))
        else None)"
proof -
  have o1: "gjson_IsObject (Some (map_response_format L raw (chat_base L modelName raw stream)))"
    by (rule map_response_format_frame(1) [OF IsObject_chat_base])
  then obtain ms where ms: "map_response_format L raw (chat_base L modelName raw stream) = JObj ms"
    using IsObject_cases by blast
  have "gjson_Get (Some (map_response_format L raw (chat_base L modelName raw stream))) (Key ''tools'' # [])
     = gjson_Get (Some (chat_base L modelName raw stream)) (Key ''tools'' # [])"
    by (rule map_response_format_frame(2) [OF IsObject_chat_base]) simp
  then have none: "map_of ms ''tools'' = None" unfolding ms by (simp add: chat_base_def)
  have "gjson_Get (Some (ConvertOpenAIRequestToCodex L modelName raw stream)) (Key ''tools'' # [])
      = gjson_Get (Some (map_tools L (originalToolNameMap L raw) raw (JObj ms))) (Key ''tools'' # [])"
    unfolding ms [symmetric] by (rule Convert_frame) simp_all
  then show ?thesis unfolding map_tools_obj using none
    by (simp add: update_conv' del: gjson_Get.simps) (simp add: update_conv')
qed

lemmas chat_eval = message_items_def function_call_items_def function_call_item_def
  function_call_output_item_def build_message_def shortenCallID_def mapped_name_def
  shortenNameIfNeeded_def originalToolNameMap_def limit_def lib0_def Let_def gjson_Exists_def
  example_chat_request_def

section \<open>The Responses Normalizer on an object\<close>

lemma responses_normalizeCallID_ok:
  assumes "cache_ok L cm"
  shows "fst (responses_normalizeCallID L i cm) = shortenCallID L i"
    and "cache_ok L (snd (responses_normalizeCallID L i cm))"
proof -
  have short: "shortenCallID L i = i" if "i = [] \<or> length i \<le> limit"
    using that by (auto simp: shortenCallID_def)
  have long: "(let hash = sha256_hex L i; prefix = ''call_'';
                  available = int limit - int (length prefix);
                  available = (if available < 0 then 0 else available);
                  hash = (if int (length hash) > available then take (nat available) hash else hash);
                  short = prefix @ hash
              in (short, cm(i \<mapsto> short))) = (shortenCallID L i, cm(i \<mapsto> shortenCallID L i))"
    if "\<not> (i = [] \<or> length i \<le> limit)"
    using that by (simp add: shortenCallID_def Let_def)
  show "fst (responses_normalizeCallID L i cm) = shortenCallID L i"
    using assms short long unfolding responses_normalizeCallID_def
    by (auto simp: cache_ok_def split: option.splits)
  show "cache_ok L (snd (responses_normalizeCallID L i cm))"
    using assms long unfolding responses_normalizeCallID_def
    by (auto simp: cache_ok_def split: option.splits)
qed

lemma fix_at:
  assumes "n < length items"
  shows "(map f (take n items) @ drop n items)[n := f (items ! n)]
       = map f (take (Suc n) items) @ drop (Suc n) items"
proof -
  have d: "drop n items = items ! n # drop (Suc n) items"
    using assms by (simp add: Cons_nth_drop_Suc)
  have l: "length (map f (take n items)) = n" using assms by simp
  have "(map f (take n items) @ items ! n # drop (Suc n) items)[length (map f (take n items)) := f (items ! n)]
      = map f (take n items) @ f (items ! n) # drop (Suc n) items"
    by (rule list_update_length)
  then show ?thesis unfolding d l using assms by (simp add: take_Suc_conv_app_nth)
qed

lemma nth_partly_fixed:
  assumes "n < length items"
  shows "(map f (take n items) @ drop n items) ! n = items ! n"
  using assms by (simp add: nth_append)

lemma Set_item:
  "map_of ms k = Some (JArr xs) \<Longrightarrow> n < length xs \<Longrightarrow>
   sjson_Set (JObj ms) (Key k # Idx n # p) v
     = JObj (AList.update k (JArr (xs[n := sjson_Set (xs ! n) p v])) ms)"
  by simp

lemma Get_item:
  "map_of ms k = Some (JArr xs) \<Longrightarrow> n < length xs \<Longrightarrow>
   gjson_Get (Some (JObj ms)) (Key k # Idx n # p) = gjson_Get (Some (xs ! n)) p"
  by simp

lemma role_fold:
  assumes body: "\<And>i result. body i result =
             (if gjson_String L (gjson_Get (Some result) [Key ''input'', Idx i, Key ''role'']) = ''system''
              then sjson_Set result [Key ''input'', Idx i, Key ''role''] (JStr ''developer'')
              else result)"
    and "map_of ms ''input'' = Some (JArr items)" "n \<le> length items"
  shows "fold body [0..<n] (JObj ms)
       = JObj (AList.update ''input'' (JArr (map (fix_role L) (take n items) @ drop n items)) ms)"
  using assms(3)
proof (induction n)
  case 0
  then show ?case using assms(2) by (simp add: update_triv)
next
  case (Suc n)
  then have n: "n < length items" by simp
  let ?cur = "map (fix_role L) (take n items) @ drop n items"
  have len: "n < length ?cur" using n by simp
  have at: "?cur ! n = items ! n" using n by (rule nth_partly_fixed)
  have upd: "?cur[n := fix_role L (items ! n)] = map (fix_role L) (take (Suc n) items) @ drop (Suc n) items"
    using n by (rule fix_at)
  have same: "fix_role L (items ! n) = items ! n \<Longrightarrow>
      ?cur = map (fix_role L) (take (Suc n) items) @ drop (Suc n) items"
    using upd at by (metis list_update_id)
  from Suc.IH n have IH: "fold body [0..<n] (JObj ms) = JObj (AList.update ''input'' (JArr ?cur) ms)"
    by simp
  have m: "map_of (AList.update ''input'' (JArr ?cur) ms) ''input'' = Some (JArr ?cur)"
    by (simp add: update_conv')
  have g: "gjson_Get (Some (JObj (AList.update ''input'' (JArr ?cur) ms))) [Key ''input'', Idx n, Key ''role'']
      = gjson_Get (Some (items ! n)) [Key ''role'']"
    unfolding Get_item [OF m len] at ..
  have s: "sjson_Set (JObj (AList.update ''input'' (JArr ?cur) ms)) [Key ''input'', Idx n, Key ''role''] v
      = JObj (AList.update ''input'' (JArr (?cur[n := sjson_Set (items ! n) [Key ''role''] v])) ms)" for v
    unfolding Set_item [OF m len] at by simp
  have "fold body [0..<Suc n] (JObj ms) = body n (fold body [0..<n] (JObj ms))" by simp
  also have "\<dots> = body n (JObj (AList.update ''input'' (JArr ?cur) ms))" unfolding IH ..
  also have "\<dots> = (if gjson_String L (gjson_Get (Some (items ! n)) [Key ''role'']) = ''system''
          then JObj (AList.update ''input''
                 (JArr (?cur[n := sjson_Set (items ! n) [Key ''role''] (JStr ''developer'')])) ms)
          else JObj (AList.update ''input'' (JArr ?cur) ms))"
    unfolding body g s ..
  finally have step: "fold body [0..<Suc n] (JObj ms) =
      (if gjson_String L (gjson_Get (Some (items ! n)) [Key ''role'']) = ''system''
          then JObj (AList.update ''input''
                 (JArr (?cur[n := sjson_Set (items ! n) [Key ''role''] (JStr ''developer'')])) ms)
          else JObj (AList.update ''input'' (JArr ?cur) ms))" .
  show ?case
  proof (cases "gjson_String L (gjson_Get (Some (items ! n)) [Key ''role'']) = ''system''")
    case True
    then have f: "fix_role L (items ! n) = sjson_Set (items ! n) [Key ''role''] (JStr ''developer'')"
      by (simp add: fix_role_def)
    show ?thesis unfolding step using True upd [unfolded f] by (simp del: sjson_Set.simps gjson_Get.simps)
  next
    case False
    then have f: "fix_role L (items ! n) = items ! n" by (simp add: fix_role_def)
    show ?thesis unfolding step using False same [OF f] by (simp del: sjson_Set.simps gjson_Get.simps)
  qed
qed

lemma convertSystemRoleToDeveloper_obj:
  "convertSystemRoleToDeveloper L (JObj ms) =
     (case map_of ms ''input'' of
        Some (JArr items) \<Rightarrow> JObj (AList.update ''input'' (JArr (map (fix_role L) items)) ms)
      | _ \<Rightarrow> JObj ms)"
proof (cases "\<exists>items. map_of ms ''input'' = Some (JArr items)")
  case True
  then obtain items where i: "map_of ms ''input'' = Some (JArr items)" by blast
  have "fold (\<lambda>i result.
                 let rolePath = [Key ''input'', Idx i, Key ''role'']
                 in if gjson_String L (gjson_Get (Some result) rolePath) = ''system''
                    then sjson_Set result rolePath (JStr ''developer'')
                    else result)
           [0..<length items] (JObj ms)
       = JObj (AList.update ''input''
           (JArr (map (fix_role L) (take (length items) items) @ drop (length items) items)) ms)"
    by (rule role_fold [OF _ i]) (simp_all add: Let_def)
  then show ?thesis using i by (simp add: convertSystemRoleToDeveloper_def Let_def)
next
  case False
  then have "\<not> gjson_IsArray (map_of ms ''input'')"
    by (cases "map_of ms ''input''" rule: gjson_IsArray.cases) auto
  then show ?thesis using False
    by (auto simp: convertSystemRoleToDeveloper_def Let_def split: option.splits json.splits)
qed

lemma normalizeInputCallIDs_loop_items:
  assumes "map_of ms ''input'' = Some (JArr (pre @ items))" "i = length pre" "cache_ok L cm"
  shows "\<exists>cm'. normalizeInputCallIDs_loop L i items (JObj ms, cm) =
           (JObj (AList.update ''input'' (JArr (pre @ map (fix_call_id L) items)) ms), cm')
         \<and> cache_ok L cm'"
  using assms
proof (induction items arbitrary: pre ms cm i)
  case Nil
  then show ?case by (auto simp: update_triv)
next
  case (Cons item items)
  let ?c = "gjson_String L (gjson_Get (Some item) [Key ''call_id''])"
  define cm1 where "cm1 = snd (responses_normalizeCallID L ?c cm)"
  have n: "responses_normalizeCallID L ?c cm = (shortenCallID L ?c, cm1)"
    using responses_normalizeCallID_ok(1) [OF Cons.prems(3), of ?c] by (simp add: cm1_def prod_eq_iff)
  have ok1: "cache_ok L cm1"
    unfolding cm1_def by (rule responses_normalizeCallID_ok(2) [OF Cons.prems(3)])
  have pre': "map_of ms ''input'' = Some (JArr ((pre @ [item]) @ items))" using Cons.prems(1) by simp
  have i': "i + 1 = length (pre @ [item])" using Cons.prems(2) by simp
  show ?case
  proof (cases "?c = [] \<or> shortenCallID L ?c = ?c")
    case True
    then have f: "fix_call_id L item = item" by (simp add: fix_call_id_def Let_def)
    have "normalizeInputCallIDs_loop L i (item # items) (JObj ms, cm)
        = normalizeInputCallIDs_loop L (i + 1) items (JObj ms, cm)
      \<or> normalizeInputCallIDs_loop L i (item # items) (JObj ms, cm)
        = normalizeInputCallIDs_loop L (i + 1) items (JObj ms, cm1)"
      using True n by (auto simp: Let_def simp del: sjson_Set.simps gjson_Get.simps)
    then show ?thesis
      using Cons.IH [OF pre' i' Cons.prems(3)] Cons.IH [OF pre' i' ok1] f by auto
  next
    case False
    then have f: "fix_call_id L item = sjson_Set item [Key ''call_id''] (JStr (shortenCallID L ?c))"
      by (simp add: fix_call_id_def Let_def)
    have len: "i < length (pre @ item # items)" using Cons.prems(2) by simp
    have s: "sjson_Set (JObj ms) [Key ''input'', Idx i, Key ''call_id''] (JStr (shortenCallID L ?c))
        = JObj (AList.update ''input'' (JArr ((pre @ [fix_call_id L item]) @ items)) ms)"
      unfolding Set_item [OF Cons.prems(1) len] f using Cons.prems(2) by simp
    have step: "normalizeInputCallIDs_loop L i (item # items) (JObj ms, cm)
        = normalizeInputCallIDs_loop L (i + 1) items
            (JObj (AList.update ''input'' (JArr ((pre @ [fix_call_id L item]) @ items)) ms), cm1)"
      using False n s by (simp add: Let_def del: sjson_Set.simps gjson_Get.simps)
    have m1: "map_of (AList.update ''input'' (JArr ((pre @ [fix_call_id L item]) @ items)) ms) ''input''
        = Some (JArr ((pre @ [fix_call_id L item]) @ items))" by (simp add: update_conv')
    have i1: "i + 1 = length (pre @ [fix_call_id L item])" using Cons.prems(2) by simp
    from Cons.IH [OF m1 i1 ok1] show ?thesis unfolding step by simp
  qed
qed

lemma normalizeInputCallIDs_obj:
  "normalizeInputCallIDs L (JObj ms) =
     (case map_of ms ''input'' of
        Some (JArr items) \<Rightarrow> JObj (AList.update ''input'' (JArr (map (fix_call_id L) items)) ms)
      | _ \<Rightarrow> JObj ms)"
proof (cases "\<exists>items. map_of ms ''input'' = Some (JArr items)")
  case True
  then obtain items where i: "map_of ms ''input'' = Some (JArr items)" by blast
  from normalizeInputCallIDs_loop_items [of ms "[]" items 0 L Map.empty] i cache_ok_empty
  show ?thesis using i by (auto simp: normalizeInputCallIDs_def Let_def)
next
  case False
  then have "\<not> gjson_IsArray (map_of ms ''input'')"
    by (cases "map_of ms ''input''" rule: gjson_IsArray.cases) auto
  then show ?thesis using False
    by (auto simp: normalizeInputCallIDs_def Let_def split: option.splits json.splits)
qed

lemma Convert_Responses_obj:
  "ConvertOpenAIResponsesRequestToCodex L modelName (JObj ms) unused = JObj (normalize_members L ms)"
proof -
  define ms1 where "ms1 = (case map_of ms ''input'' of
                   Some (JStr s) \<Rightarrow> AList.update ''input'' (wrapped_input s) ms
                 | _ \<Rightarrow> ms)"
  have w: "(if gjson_IsString (gjson_Get (Some (JObj ms)) [Key ''input'']) then
               sjson_Set (JObj ms) [Key ''input'']
                 (sjson_Set
                              (JArr [JObj [(''type'', JStr ''message''), (''role'', JStr ''user''),
                                           (''content'', JArr [JObj [(''type'', JStr ''input_text''),
                                                                    (''text'', JStr [])]])]])
                              [Idx 0, Key ''content'', Idx 0, Key ''text'']
                              (JStr (gjson_String L (gjson_Get (Some (JObj ms)) [Key ''input'']))))
             else JObj ms) = JObj ms1"
    by (cases "map_of ms ''input''" rule: gjson_IsString.cases)
       (simp_all add: ms1_def wrapped_input_def)
  define ms3 where "ms3 = delete_first ''user'' (delete_first ''service_tier'' (delete_first ''top_p''
                  (delete_first ''temperature'' (delete_first ''max_completion_tokens''
                     (delete_first ''max_output_tokens''
     (AList.update ''include'' (JArr [JStr ''reasoning.encrypted_content''])
                  (AList.update ''parallel_tool_calls'' (JBool True)
                     (AList.update ''store'' (JBool False)
                        (AList.update ''stream'' (JBool True) ms1)))))))))"
  have mid: "sjson_Delete (sjson_Delete (sjson_Delete (sjson_Delete (sjson_Delete (sjson_Delete
       (sjson_Set (sjson_Set (sjson_Set (sjson_Set (JObj ms1)
          [Key ''stream''] (JBool True)) [Key ''store''] (JBool False))
          [Key ''parallel_tool_calls''] (JBool True))
          [Key ''include''] (JArr [JStr ''reasoning.encrypted_content'']))
       ''max_output_tokens'') ''max_completion_tokens'') ''temperature'') ''top_p'')
       ''service_tier'') ''user'' = JObj ms3"
    by (simp add: ms3_def)
  have fin: "normalizeInputCallIDs L (convertSystemRoleToDeveloper L (JObj ms3))
      = JObj (case map_of ms3 ''input'' of
           Some (JArr items) \<Rightarrow>
             AList.update ''input'' (JArr (map (\<lambda>item. fix_call_id L (fix_role L item)) items)) ms3
         | _ \<Rightarrow> ms3)"
    unfolding convertSystemRoleToDeveloper_obj
    by (auto simp: normalizeInputCallIDs_obj update_conv' comp_def split: option.splits json.splits)
  show ?thesis
    unfolding ConvertOpenAIResponsesRequestToCodex_def Let_def w mid fin
    unfolding normalize_members_def fix_members_def strip_members_def force_members_def
      wrap_members_def ms3_def ms1_def ..
qed

lemma shortenCallID_length: "length (shortenCallID L c) \<le> limit"
  by (simp add: shortenCallID_def Let_def limit_def)



lemma Get_key_Some_obj: "gjson_Get (Some x) [Key k] = Some v \<Longrightarrow> \<exists>ms. x = JObj ms"
  by (cases x) simp_all

lemma String_nonempty_obj: "gjson_String L (gjson_Get (Some x) [Key k]) \<noteq> [] \<Longrightarrow> \<exists>ms. x = JObj ms"
  by (cases x) simp_all


lemma fix_role_other:
  "k \<noteq> ''role'' \<Longrightarrow> gjson_Get (Some (fix_role L x)) [Key k] = gjson_Get (Some x) [Key k]"
proof (cases "gjson_String L (gjson_Get (Some x) [Key ''role'']) = ''system''")
  case False
  then show ?thesis by (simp add: fix_role_def)
next
  assume k: "k \<noteq> ''role''"
  case True
  then have "gjson_String L (gjson_Get (Some x) [Key ''role'']) \<noteq> []" by simp
  then obtain ms where "x = JObj ms" using String_nonempty_obj by blast
  with True k show ?thesis by (simp add: fix_role_def update_conv')
qed

lemma fix_call_id_other:
  "k \<noteq> ''call_id'' \<Longrightarrow> gjson_Get (Some (fix_call_id L x)) [Key k] = gjson_Get (Some x) [Key k]"
proof (cases "gjson_String L (gjson_Get (Some x) [Key ''call_id'']) = []")
  case True
  then show ?thesis by (simp add: fix_call_id_def)
next
  assume k: "k \<noteq> ''call_id''"
  case False
  then obtain ms where "x = JObj ms" using String_nonempty_obj by blast
  with False k show ?thesis by (simp add: fix_call_id_def Let_def update_conv')
qed




lemma fix_wrapped:
  "wrapped_input s = JArr [x] \<Longrightarrow> fix_call_id L (fix_role L x) = x"
  by (auto simp: wrapped_input_def fix_role_def fix_call_id_def)

lemma wrap_members_lookup:
  "map_of (wrap_members ms) k =
     (if k = ''input'' then
        (case map_of ms ''input'' of Some (JStr s) \<Rightarrow> Some (wrapped_input s) | other \<Rightarrow> other)
      else map_of ms k)"
proof (cases "\<exists>s. map_of ms ''input'' = Some (JStr s)")
  case True
  then obtain s where "map_of ms ''input'' = Some (JStr s)" by blast
  then show ?thesis by (simp add: wrap_members_def update_conv')
next
  case False
  then have "wrap_members ms = ms"
    by (auto simp: wrap_members_def split: option.splits json.splits)
  with False show ?thesis by (auto split: option.splits json.splits)
qed

lemma force_members_lookup:
  "map_of (force_members ms) =
     (map_of ms)(''stream'' \<mapsto> JBool True, ''store'' \<mapsto> JBool False,
        ''parallel_tool_calls'' \<mapsto> JBool True,
        ''include'' \<mapsto> JArr [JStr ''reasoning.encrypted_content''])"
  by (simp add: force_members_def update_conv')

lemma delete_first_other: "k' \<noteq> k \<Longrightarrow> map_of (delete_first k ms) k' = map_of ms k'"
  by (induction ms) auto

lemma delete_first_keys: "fst ` set (delete_first k ms) \<subseteq> fst ` set ms"
  by (induction ms) auto

lemma delete_first_distinct:
  "distinct (map fst ms) \<Longrightarrow> distinct (map fst (delete_first k ms))"
proof (induction ms)
  case Nil
  then show ?case by simp
next
  case (Cons p ms)
  have "fst p \<notin> fst ` set (delete_first k ms)"
    using Cons.prems delete_first_keys [of k ms] by auto
  with Cons show ?case by simp
qed



lemma strip_members_other:
  assumes "k \<notin> {''max_output_tokens'', ''max_completion_tokens'', ''temperature'', ''top_p'',
                 ''service_tier'', ''user''}"
  shows "map_of (strip_members ms) k = map_of ms k"
  using assms by (simp add: strip_members_def delete_first_other)

lemma strip_members_distinct:
  "distinct (map fst ms) \<Longrightarrow> distinct (map fst (strip_members ms))"
  by (simp add: strip_members_def delete_first_distinct)



lemma wrap_members_distinct:
  "distinct (map fst ms) \<Longrightarrow> distinct (map fst (wrap_members ms))"
  by (auto simp: wrap_members_def distinct_update split: option.splits json.splits)

lemma force_members_distinct:
  "distinct (map fst ms) \<Longrightarrow> distinct (map fst (force_members ms))"
  by (simp add: force_members_def distinct_update)

lemma fix_members_distinct:
  "distinct (map fst ms) \<Longrightarrow> distinct (map fst (fix_members L ms))"
  by (auto simp: fix_members_def distinct_update split: option.splits json.splits)

lemma normalize_members_distinct:
  "distinct (map fst ms) \<Longrightarrow> distinct (map fst (normalize_members L ms))"
  by (simp add: normalize_members_def fix_members_distinct strip_members_distinct
        force_members_distinct wrap_members_distinct)

lemma fix_members_lookup:
  "map_of (fix_members L ms) k =
     (if k = ''input'' then
        (case map_of ms ''input'' of
           Some (JArr items) \<Rightarrow> Some (JArr (map (\<lambda>item. fix_call_id L (fix_role L item)) items))
         | other \<Rightarrow> other)
      else map_of ms k)"
proof (cases "\<exists>items. map_of ms ''input'' = Some (JArr items)")
  case True
  then obtain items where "map_of ms ''input'' = Some (JArr items)" by blast
  then show ?thesis by (simp add: fix_members_def update_conv')
next
  case False
  then have "fix_members L ms = ms"
    by (auto simp: fix_members_def split: option.splits json.splits)
  with False show ?thesis by (auto split: option.splits json.splits)
qed




lemma normalize_members_input:
  "map_of (normalize_members L ms) ''input'' =
     (case map_of ms ''input'' of
        Some (JStr s) \<Rightarrow> Some (wrapped_input s)
      | Some (JArr items) \<Rightarrow> Some (JArr (map (\<lambda>item. fix_call_id L (fix_role L item)) items))
      | other \<Rightarrow> other)"
proof -
  have 1: "map_of (strip_members (force_members (wrap_members ms))) ''input''
      = (case map_of ms ''input'' of Some (JStr s) \<Rightarrow> Some (wrapped_input s) | other \<Rightarrow> other)"
    by (simp add: strip_members_other force_members_lookup wrap_members_lookup)
  have 2: "map (\<lambda>item. fix_call_id L (fix_role L item)) [x] = [x]" if "wrapped_input s = JArr [x]" for s x
    using fix_wrapped [OF that] by simp
  show ?thesis
    unfolding normalize_members_def fix_members_lookup 1
    using 2 by (auto simp: wrapped_input_def split: option.splits json.splits)
qed


lemma fix_role_role:
  "gjson_Get (Some (fix_role L x)) [Key ''role'']
     = (if gjson_String L (gjson_Get (Some x) [Key ''role'']) = ''system''
        then Some (JStr ''developer'') else gjson_Get (Some x) [Key ''role''])"
proof (cases "gjson_String L (gjson_Get (Some x) [Key ''role'']) = ''system''")
  case False
  then show ?thesis by (simp add: fix_role_def)
next
  case True
  then have "gjson_String L (gjson_Get (Some x) [Key ''role'']) \<noteq> []" by simp
  then obtain ms where "x = JObj ms" using String_nonempty_obj by blast
  with True show ?thesis by (simp add: fix_role_def update_conv')
qed

lemma fix_call_id_long:
  assumes "length (gjson_String L (gjson_Get (Some x) [Key ''call_id''])) > 64"
  shows "gjson_Get (Some (fix_call_id L x)) [Key ''call_id'']
       = Some (JStr (shortenCallID L (gjson_String L (gjson_Get (Some x) [Key ''call_id'']))))"
proof -
  let ?c = "gjson_String L (gjson_Get (Some x) [Key ''call_id''])"
  from assms have ne: "?c \<noteq> []" by auto
  then obtain ms where x: "x = JObj ms" using String_nonempty_obj by blast
  have "length (shortenCallID L ?c) \<le> 64" using shortenCallID_length [of L ?c] by (simp add: limit_def)
  with assms have "shortenCallID L ?c \<noteq> ?c" by auto
  with ne show ?thesis unfolding x by (simp add: fix_call_id_def Let_def update_conv')
qed

lemma Convert_Responses_item:
  assumes "gjson_Get (Some (JObj ms)) [Key ''input''] = Some (JArr items)" "i < length items"
  shows "gjson_Get (Some (ConvertOpenAIResponsesRequestToCodex L modelName (JObj ms) unused))
           (Key ''input'' # Idx i # p)
       = gjson_Get (Some (fix_call_id L (fix_role L (items ! i)))) p"
proof -
  from assms(1) have "map_of ms ''input'' = Some (JArr items)" by simp
  then have "map_of (normalize_members L ms) ''input''
      = Some (JArr (map (\<lambda>item. fix_call_id L (fix_role L item)) items))"
    by (simp add: normalize_members_input)
  then show ?thesis using assms(2) by (simp add: Convert_Responses_obj)
qed

lemma chat_items_member:
  assumes "gjson_Get (Some raw) [Key ''messages''] = Some (JArr msgs)" "m \<in> set msgs"
    and "x \<in> set (message_items L (originalToolNameMap L raw) m)"
  shows "x \<in> set (gjson_Array (gjson_Get (Some (ConvertOpenAIRequestToCodex L modelName raw stream))
           [Key ''input'']))"
proof -
  have "chat_items L raw = concat (map (message_items L (originalToolNameMap L raw)) msgs)"
    using assms(1) by (simp add: chat_items_def)
  with assms(2,3) have "x \<in> set (chat_items L raw)" by auto
  then show ?thesis unfolding Convert_input by simp
qed

section \<open>The claims\<close>

text \<open>
  Claim C1. An identifier of more than 64 bytes is shortened to \<open>call_\<close> followed by the
  first 59 characters of the hexadecimal hash, a function of the identifier alone: the
  result has at most 64 bytes and starts with \<open>call_\<close>, and asking twice within one
  conversion, through the cache, gives the same answer, whatever the cache held before.
  Consequently, when a function-type tool call of an assistant message and a tool
  message carry the same long identifier, the Chat-Completions Converter emits a
  \<open>function_call\<close> item and a \<open>function_call_output\<close> item whose \<open>call_id\<close> is that
  one shortened identifier; and when two items of the \<open>input\<close> array of a Responses
  request carry the same long \<open>call_id\<close>, the Responses Normalizer writes that one
  shortened identifier into both.
\<close>

theorem call_id_correlation:
  assumes "length ident > 64"
  shows "shortenCallID L ident = ''call_'' @ take 59 (sha256_hex L ident)
   \<and> length (shortenCallID L ident) \<le> 64
   \<and> HasPrefix (shortenCallID L ident) ''call_''
   \<and> fst (chat_normalizeCallID L ident Map.empty) = shortenCallID L ident
   \<and> fst (chat_normalizeCallID L ident (snd (chat_normalizeCallID L ident cm)))
       = fst (chat_normalizeCallID L ident cm)
   \<and> fst (responses_normalizeCallID L ident Map.empty) = shortenCallID L ident
   \<and> fst (responses_normalizeCallID L ident (snd (responses_normalizeCallID L ident cm)))
       = fst (responses_normalizeCallID L ident cm)
   \<and> (gjson_Get (Some raw) [Key ''messages''] = Some (JArr msgs) \<and>
       a \<in> set msgs \<and> gjson_String L (gjson_Get (Some a) [Key ''role'']) = ''assistant'' \<and>
       gjson_Get (Some a) [Key ''tool_calls''] = Some (JArr tcs) \<and>
       tc \<in> set tcs \<and> gjson_String L (gjson_Get (Some tc) [Key ''type'']) = ''function'' \<and>
       gjson_String L (gjson_Get (Some tc) [Key ''id'']) = ident \<and>
       m \<in> set msgs \<and> gjson_String L (gjson_Get (Some m) [Key ''role'']) = ''tool'' \<and>
       gjson_String L (gjson_Get (Some m) [Key ''tool_call_id'']) = ident \<longrightarrow>
         function_call_item L (originalToolNameMap L raw) tc
           \<in> set (gjson_Array (gjson_Get (Some (ConvertOpenAIRequestToCodex L modelName raw stream))
                    [Key ''input''])) \<and>
         function_call_output_item L m
           \<in> set (gjson_Array (gjson_Get (Some (ConvertOpenAIRequestToCodex L modelName raw stream))
                    [Key ''input''])) \<and>
         gjson_Get (Some (function_call_item L (originalToolNameMap L raw) tc)) [Key ''call_id'']
           = Some (JStr (shortenCallID L ident)) \<and>
         gjson_Get (Some (function_call_output_item L m)) [Key ''call_id'']
           = Some (JStr (shortenCallID L ident)))
   \<and> (gjson_Get (Some (JObj ms)) [Key ''input''] = Some (JArr items) \<and>
       i < length items \<and> gjson_String L (gjson_Get (Some (items ! i)) [Key ''call_id'']) = ident \<and>
       j < length items \<and> gjson_String L (gjson_Get (Some (items ! j)) [Key ''call_id'']) = ident \<longrightarrow>
         gjson_Get (Some (ConvertOpenAIResponsesRequestToCodex L model (JObj ms) unused))
             [Key ''input'', Idx i, Key ''call_id''] = Some (JStr (shortenCallID L ident)) \<and>
         gjson_Get (Some (ConvertOpenAIResponsesRequestToCodex L model (JObj ms) unused))
             [Key ''input'', Idx j, Key ''call_id''] = Some (JStr (shortenCallID L ident)))"
proof -
  have 1: "shortenCallID L ident = ''call_'' @ take 59 (sha256_hex L ident)"
    using assms by (simp add: shortenCallID_def Let_def limit_def)
  have 2: "length (shortenCallID L ident) \<le> 64"
    using shortenCallID_length [of L ident] by (simp add: limit_def)
  have 3: "HasPrefix (shortenCallID L ident) ''call_''"
    unfolding 1 by (simp add: HasPrefix_def)
  have 4: "fst (chat_normalizeCallID L ident Map.empty) = shortenCallID L ident"
    by (rule chat_normalizeCallID_ok(1) [OF cache_ok_empty])
  have 5: "fst (chat_normalizeCallID L ident (snd (chat_normalizeCallID L ident cm)))
       = fst (chat_normalizeCallID L ident cm)"
    by (simp add: chat_normalizeCallID_def Let_def split: option.splits)
  have 6: "fst (responses_normalizeCallID L ident Map.empty) = shortenCallID L ident"
    by (rule responses_normalizeCallID_ok(1) [OF cache_ok_empty])
  have 7: "fst (responses_normalizeCallID L ident (snd (responses_normalizeCallID L ident cm)))
       = fst (responses_normalizeCallID L ident cm)"
    by (simp add: responses_normalizeCallID_def Let_def split: option.splits)
  have 8: "function_call_item L (originalToolNameMap L raw) tc
           \<in> set (gjson_Array (gjson_Get (Some (ConvertOpenAIRequestToCodex L modelName raw stream))
                    [Key ''input''])) \<and>
         function_call_output_item L m
           \<in> set (gjson_Array (gjson_Get (Some (ConvertOpenAIRequestToCodex L modelName raw stream))
                    [Key ''input''])) \<and>
         gjson_Get (Some (function_call_item L (originalToolNameMap L raw) tc)) [Key ''call_id'']
           = Some (JStr (shortenCallID L ident)) \<and>
         gjson_Get (Some (function_call_output_item L m)) [Key ''call_id'']
           = Some (JStr (shortenCallID L ident))"
    if h: "gjson_Get (Some raw) [Key ''messages''] = Some (JArr msgs) \<and>
       a \<in> set msgs \<and> gjson_String L (gjson_Get (Some a) [Key ''role'']) = ''assistant'' \<and>
       gjson_Get (Some a) [Key ''tool_calls''] = Some (JArr tcs) \<and>
       tc \<in> set tcs \<and> gjson_String L (gjson_Get (Some tc) [Key ''type'']) = ''function'' \<and>
       gjson_String L (gjson_Get (Some tc) [Key ''id'']) = ident \<and>
       m \<in> set msgs \<and> gjson_String L (gjson_Get (Some m) [Key ''role'']) = ''tool'' \<and>
       gjson_String L (gjson_Get (Some m) [Key ''tool_call_id'']) = ident"
  proof (intro conjI)
    from h have "function_call_item L (originalToolNameMap L raw) tc
        \<in> set (message_items L (originalToolNameMap L raw) a)"
      by (simp add: message_items_def function_call_items_def Let_def)
    with h show "function_call_item L (originalToolNameMap L raw) tc
           \<in> set (gjson_Array (gjson_Get (Some (ConvertOpenAIRequestToCodex L modelName raw stream))
                    [Key ''input'']))"
      by (intro chat_items_member [of raw msgs a]) simp_all
    from h have "function_call_output_item L m \<in> set (message_items L (originalToolNameMap L raw) m)"
      by (simp add: message_items_def Let_def)
    with h show "function_call_output_item L m
           \<in> set (gjson_Array (gjson_Get (Some (ConvertOpenAIRequestToCodex L modelName raw stream))
                    [Key ''input'']))"
      by (intro chat_items_member [of raw msgs m]) simp_all
    from h show "gjson_Get (Some (function_call_item L (originalToolNameMap L raw) tc)) [Key ''call_id'']
           = Some (JStr (shortenCallID L ident))"
      by (simp add: function_call_item_def)
    from h show "gjson_Get (Some (function_call_output_item L m)) [Key ''call_id'']
           = Some (JStr (shortenCallID L ident))"
      by (simp add: function_call_output_item_def)
  qed
  have 9: "gjson_Get (Some (ConvertOpenAIResponsesRequestToCodex L model (JObj ms) unused))
             [Key ''input'', Idx k, Key ''call_id''] = Some (JStr (shortenCallID L ident))"
    if h: "gjson_Get (Some (JObj ms)) [Key ''input''] = Some (JArr items)" "k < length items"
      "gjson_String L (gjson_Get (Some (items ! k)) [Key ''call_id'']) = ident" for k
  proof -
    have c: "gjson_Get (Some (fix_role L (items ! k))) [Key ''call_id'']
        = gjson_Get (Some (items ! k)) [Key ''call_id'']"
      by (rule fix_role_other) simp
    have "gjson_Get (Some (ConvertOpenAIResponsesRequestToCodex L model (JObj ms) unused))
          (Key ''input'' # Idx k # [Key ''call_id''])
      = gjson_Get (Some (fix_call_id L (fix_role L (items ! k)))) [Key ''call_id'']"
      using h(1,2) by (rule Convert_Responses_item)
    also have "\<dots> = Some (JStr (shortenCallID L
        (gjson_String L (gjson_Get (Some (fix_role L (items ! k))) [Key ''call_id'']))))"
      by (rule fix_call_id_long) (simp only: c h(3) assms)
    finally show ?thesis unfolding c h(3) .
  qed
  have c9: "gjson_Get (Some (JObj ms)) [Key ''input''] = Some (JArr items) \<and>
       i < length items \<and> gjson_String L (gjson_Get (Some (items ! i)) [Key ''call_id'']) = ident \<and>
       j < length items \<and> gjson_String L (gjson_Get (Some (items ! j)) [Key ''call_id'']) = ident \<longrightarrow>
         gjson_Get (Some (ConvertOpenAIResponsesRequestToCodex L model (JObj ms) unused))
             [Key ''input'', Idx i, Key ''call_id''] = Some (JStr (shortenCallID L ident)) \<and>
         gjson_Get (Some (ConvertOpenAIResponsesRequestToCodex L model (JObj ms) unused))
             [Key ''input'', Idx j, Key ''call_id''] = Some (JStr (shortenCallID L ident))"
  proof (intro impI conjI)
    assume h: "gjson_Get (Some (JObj ms)) [Key ''input''] = Some (JArr items) \<and>
       i < length items \<and> gjson_String L (gjson_Get (Some (items ! i)) [Key ''call_id'']) = ident \<and>
       j < length items \<and> gjson_String L (gjson_Get (Some (items ! j)) [Key ''call_id'']) = ident"
    from h show "gjson_Get (Some (ConvertOpenAIResponsesRequestToCodex L model (JObj ms) unused))
             [Key ''input'', Idx i, Key ''call_id''] = Some (JStr (shortenCallID L ident))"
      by (intro 9) simp_all
    from h show "gjson_Get (Some (ConvertOpenAIResponsesRequestToCodex L model (JObj ms) unused))
             [Key ''input'', Idx j, Key ''call_id''] = Some (JStr (shortenCallID L ident))"
      by (intro 9) simp_all
  qed
  note c8 = impI [OF 8]
  from 1 2 3 4 5 6 7 c8 c9 show ?thesis by - (intro conjI; assumption)
qed

theorem call_id_correlation_witness:
  "length example_long_id > 64 \<and>
   length (shortenCallID lib0 example_long_id) \<le> 64 \<and>
   HasPrefix (shortenCallID lib0 example_long_id) ''call_'' \<and>
   function_call_item lib0
       (originalToolNameMap lib0 (JObj [(''messages'', JArr [example_assistant_message, example_tool_message])]))
       example_tool_call
     \<in> set (gjson_Array (gjson_Get (Some (ConvertOpenAIRequestToCodex lib0 ''gpt-5''
          (JObj [(''messages'', JArr [example_assistant_message, example_tool_message])]) True))
          [Key ''input''])) \<and>
   function_call_output_item lib0 example_tool_message
     \<in> set (gjson_Array (gjson_Get (Some (ConvertOpenAIRequestToCodex lib0 ''gpt-5''
          (JObj [(''messages'', JArr [example_assistant_message, example_tool_message])]) True))
          [Key ''input''])) \<and>
   gjson_Get (Some (function_call_item lib0
       (originalToolNameMap lib0 (JObj [(''messages'', JArr [example_assistant_message, example_tool_message])]))
       example_tool_call)) [Key ''call_id'']
     = Some (JStr (shortenCallID lib0 example_long_id)) \<and>
   gjson_Get (Some (function_call_output_item lib0 example_tool_message)) [Key ''call_id'']
     = Some (JStr (shortenCallID lib0 example_long_id)) \<and>
   gjson_Get (Some (ConvertOpenAIResponsesRequestToCodex lib0 ''gpt-5.2''
        (JObj [(''model'', JStr ''gpt-5.2''), (''input'', JArr example_responses_items)]) False))
      [Key ''input'', Idx 0, Key ''call_id''] = Some (JStr (shortenCallID lib0 example_long_id)) \<and>
   gjson_Get (Some (ConvertOpenAIResponsesRequestToCodex lib0 ''gpt-5.2''
        (JObj [(''model'', JStr ''gpt-5.2''), (''input'', JArr example_responses_items)]) False))
      [Key ''input'', Idx 1, Key ''call_id''] = Some (JStr (shortenCallID lib0 example_long_id))"
proof -
  have h1: "length example_long_id > 64" by (simp add: example_long_id_def)
  have h2: "gjson_Get (Some (JObj [(''messages'', JArr [example_assistant_message, example_tool_message])]))
         [Key ''messages''] = Some (JArr [example_assistant_message, example_tool_message]) \<and>
       example_assistant_message \<in> set [example_assistant_message, example_tool_message] \<and>
       gjson_String lib0 (gjson_Get (Some example_assistant_message) [Key ''role'']) = ''assistant'' \<and>
       gjson_Get (Some example_assistant_message) [Key ''tool_calls''] = Some (JArr [example_tool_call]) \<and>
       example_tool_call \<in> set [example_tool_call] \<and>
       gjson_String lib0 (gjson_Get (Some example_tool_call) [Key ''type'']) = ''function'' \<and>
       gjson_String lib0 (gjson_Get (Some example_tool_call) [Key ''id'']) = example_long_id \<and>
       example_tool_message \<in> set [example_assistant_message, example_tool_message] \<and>
       gjson_String lib0 (gjson_Get (Some example_tool_message) [Key ''role'']) = ''tool'' \<and>
       gjson_String lib0 (gjson_Get (Some example_tool_message) [Key ''tool_call_id'']) = example_long_id"
    by (simp add: example_assistant_message_def example_tool_message_def example_tool_call_def)
  have h3: "gjson_Get (Some (JObj [(''model'', JStr ''gpt-5.2''), (''input'', JArr example_responses_items)]))
         [Key ''input''] = Some (JArr example_responses_items) \<and>
       0 < length example_responses_items \<and>
       gjson_String lib0 (gjson_Get (Some (example_responses_items ! 0)) [Key ''call_id'']) = example_long_id \<and>
       1 < length example_responses_items \<and>
       gjson_String lib0 (gjson_Get (Some (example_responses_items ! 1)) [Key ''call_id'']) = example_long_id"
    by (simp add: example_responses_items_def)
  note t = call_id_correlation [OF h1, where L = lib0 and cm = Map.empty
      and raw = "JObj [(''messages'', JArr [example_assistant_message, example_tool_message])]"
      and msgs = "[example_assistant_message, example_tool_message]"
      and a = example_assistant_message and tcs = "[example_tool_call]" and tc = example_tool_call
      and m = example_tool_message and modelName = "''gpt-5''" and stream = True
      and ms = "[(''model'', JStr ''gpt-5.2''), (''input'', JArr example_responses_items)]"
      and items = example_responses_items and i = 0 and j = 1
      and model = "''gpt-5.2''" and unused = False]
  note c2 = t [THEN conjunct2, THEN conjunct1]
  note c3 = t [THEN conjunct2, THEN conjunct2, THEN conjunct1]
  note c8 = t [THEN conjunct2, THEN conjunct2, THEN conjunct2, THEN conjunct2, THEN conjunct2,
      THEN conjunct2, THEN conjunct2, THEN conjunct1, THEN mp, OF h2]
  note c9 = t [THEN conjunct2, THEN conjunct2, THEN conjunct2, THEN conjunct2, THEN conjunct2,
      THEN conjunct2, THEN conjunct2, THEN conjunct2, THEN mp, OF h3]
  from h1 c2 c3 c8 c9 show ?thesis by - ((elim conjE)?, (intro conjI; assumption))
qed

text \<open>
  Claim C2. For every list of pairwise distinct tool names handed to \<open>buildShortNameMap\<close>,
  each name is bound to exactly one alias, the aliases are pairwise distinct, and every
  alias has at most 64 bytes. The length of a Go slice is an \<open>int\<close>, hence below \<open>2 ^ 63\<close>;
  the collision counter of \<open>makeUnique\<close> never exceeds the number of names, so it stays
  in the range where the model's natural number and Go's \<open>int\<close> agree.
\<close>

theorem buildShortNameMap_unique:
  assumes "distinct names" and "length names < 2 ^ 63"
  shows "dom (buildShortNameMap names) = set names
       \<and> distinct (map (\<lambda>n. the (buildShortNameMap names n)) names)
       \<and> (\<forall>n\<in>set names. \<exists>!a. buildShortNameMap names n = Some a \<and> length a \<le> 64)"
proof -
  have "(2::nat) ^ 63 \<le> 10 ^ 63" by (rule power_mono) simp_all
  with assms(2) have sz: "length ([]::string list) + length names < 10 ^ 63" by simp
  have e: "set names \<inter> dom (Map.empty :: string \<rightharpoonup> string) = {}" by simp
  from buildShortNameMap_loop_inv [OF assms(1) e sz, folded buildShortNameMap_def]
  have dom: "dom (buildShortNameMap names) = set names"
    and dist: "distinct (map (\<lambda>n. the (buildShortNameMap names n)) names)"
    and len: "\<And>n. n \<in> set names \<Longrightarrow> length (the (buildShortNameMap names n)) \<le> limit"
    by auto
  have "\<exists>!a. buildShortNameMap names n = Some a \<and> length a \<le> 64" if "n \<in> set names" for n
  proof -
    from that dom obtain a where a: "buildShortNameMap names n = Some a" by auto
    with len [OF that] show ?thesis by (auto simp: limit_def)
  qed
  with dom dist show ?thesis by blast
qed

theorem buildShortNameMap_unique_witness:
  "distinct [replicate 64 CHR ''x'' @ ''1'', replicate 64 CHR ''x'' @ ''2'', ''a''] \<and>
   length [replicate 64 CHR ''x'' @ ''1'', replicate 64 CHR ''x'' @ ''2'', ''a''] < 2 ^ 63 \<and>
   dom (buildShortNameMap [replicate 64 CHR ''x'' @ ''1'', replicate 64 CHR ''x'' @ ''2'', ''a''])
     = set [replicate 64 CHR ''x'' @ ''1'', replicate 64 CHR ''x'' @ ''2'', ''a''] \<and>
   distinct (map (\<lambda>n. the (buildShortNameMap
        [replicate 64 CHR ''x'' @ ''1'', replicate 64 CHR ''x'' @ ''2'', ''a''] n))
     [replicate 64 CHR ''x'' @ ''1'', replicate 64 CHR ''x'' @ ''2'', ''a''])"
proof -
  have d: "distinct [replicate 64 CHR ''x'' @ ''1'', replicate 64 CHR ''x'' @ ''2'', ''a'']"
    by simp
  have l: "length [replicate 64 CHR ''x'' @ ''1'', replicate 64 CHR ''x'' @ ''2'', ''a''] < 2 ^ 63"
    by simp
  from buildShortNameMap_unique [OF d l] d l show ?thesis by blast
qed

text \<open>
  Claim C3. For every name, the single-name shortener \<open>shortenNameIfNeeded\<close> returns a
  string of at most 64 bytes, and a name that already has at most 64 bytes (the empty
  name and a name of exactly 64 bytes among them) is returned unchanged.
\<close>

theorem shortenNameIfNeeded_bound:
  "length (shortenNameIfNeeded name) \<le> 64 \<and>
   (length name \<le> 64 \<longrightarrow> shortenNameIfNeeded name = name)"
  by (simp add: shortenNameIfNeeded_def Let_def limit_def)

theorem shortenNameIfNeeded_bound_witness:
  "length ([] :: string) \<le> 64 \<and> shortenNameIfNeeded [] = [] \<and>
   length (replicate 64 CHR ''a'') \<le> 64 \<and>
   shortenNameIfNeeded (replicate 64 CHR ''a'') = replicate 64 CHR ''a'' \<and>
   length (shortenNameIfNeeded (replicate 65 CHR ''a'')) \<le> 64"
  using shortenNameIfNeeded_bound [of "[]"] shortenNameIfNeeded_bound [of "replicate 64 CHR ''a''"]
    shortenNameIfNeeded_bound [of "replicate 65 CHR ''a''"]
  by simp

text \<open>
  Claim C4. A name of more than 64 bytes that begins with \<open>mcp__\<close> is shortened to
  \<open>mcp__\<close> followed by the segment after the last occurrence of \<open>__\<close>, and that
  candidate is cut to 64 bytes only when it is itself longer than 64 bytes; the closure
  \<open>baseCandidate\<close> of the pre-pass does the same. The name is split as
  \<open>pre @ ''__'' @ seg\<close>, and the occurrence is the last one when no \<open>__\<close> starts
  further right, that is, inside \<open>''_'' @ seg\<close>. Where the separator stands is not
  restricted: when the only \<open>__\<close> is the one of the prefix, \<open>seg\<close> is the rest of the
  name.
\<close>

theorem mcp_prefix_preservation:
  assumes "length name > 64" and "HasPrefix name ''mcp__''"
    and "name = pre @ ''__'' @ seg" and "\<not> Contains (CHR ''_'' # seg) ''__''"
  shows "shortenNameIfNeeded name =
           (if length (''mcp__'' @ seg) > 64 then take 64 (''mcp__'' @ seg) else ''mcp__'' @ seg)
         \<and> baseCandidate name =
           (if length (''mcp__'' @ seg) > 64 then take 64 (''mcp__'' @ seg) else ''mcp__'' @ seg)"
proof -
  from mcp_candidate [OF assms(2,3,4)]
  have idx: "LastIndex name ''__'' > 0" and seg: "drop (nat (LastIndex name ''__'' + 2)) name = seg"
    by simp_all
  have "shortenNameIfNeeded name =
      (if length (''mcp__'' @ seg) > 64 then take 64 (''mcp__'' @ seg) else ''mcp__'' @ seg)"
    unfolding shortenNameIfNeeded_def Let_def seg using assms(1,2) idx by (simp add: limit_def)
  moreover have "baseCandidate name =
      (if length (''mcp__'' @ seg) > 64 then take 64 (''mcp__'' @ seg) else ''mcp__'' @ seg)"
    unfolding baseCandidate_def Let_def seg using assms(1,2) idx by (simp add: limit_def)
  ultimately show ?thesis by simp
qed

theorem mcp_prefix_preservation_witness:
  "length (''mcp__'' @ replicate 60 CHR ''n'' @ ''__'' @ ''read_file'') > 64 \<and>
   HasPrefix (''mcp__'' @ replicate 60 CHR ''n'' @ ''__'' @ ''read_file'') ''mcp__'' \<and>
   \<not> Contains (CHR ''_'' # ''read_file'') ''__'' \<and>
   shortenNameIfNeeded (''mcp__'' @ replicate 60 CHR ''n'' @ ''__'' @ ''read_file'') = ''mcp__read_file'' \<and>
   baseCandidate (''mcp__'' @ replicate 60 CHR ''n'' @ ''__'' @ ''read_file'') = ''mcp__read_file''"
proof -
  have 1: "length (''mcp__'' @ replicate 60 CHR ''n'' @ ''__'' @ ''read_file'') > 64" by simp
  have 2: "HasPrefix (''mcp__'' @ replicate 60 CHR ''n'' @ ''__'' @ ''read_file'') ''mcp__''"
    by (simp add: HasPrefix_def)
  have 3: "''mcp__'' @ replicate 60 CHR ''n'' @ ''__'' @ ''read_file''
     = (''mcp__'' @ replicate 60 CHR ''n'') @ ''__'' @ ''read_file''" by simp
  have 4: "\<not> Contains (CHR ''_'' # ''read_file'') ''__''" by (simp add: HasPrefix_def)
  from mcp_prefix_preservation [OF 1 2 3 4] 1 2 4 show ?thesis by simp
qed

text \<open>
  Claim C5. The Chat-Completions Converter builds \<open>input\<close> in a single pass that keeps
  the order of \<open>messages\<close>: the output array is the concatenation, message by message,
  of the items each message contributes. A message whose role reads \<open>tool\<close> contributes
  exactly one \<open>function_call_output\<close> item, holding the shortened \<open>tool_call_id\<close> and the
  content as a string, and no message item. Every other message contributes one item of
  type \<open>message\<close>, followed, when the role reads \<open>assistant\<close> and \<open>tool_calls\<close> is an array,
  by one \<open>function_call\<close> item for each tool call of type \<open>function\<close>, in call order.
\<close>

theorem chat_messages_single_pass:
  "gjson_Get (Some (ConvertOpenAIRequestToCodex L modelName raw stream)) [Key ''input'']
     = Some (JArr (if gjson_IsArray (gjson_Get (Some raw) [Key ''messages''])
                   then concat (map (message_items L (originalToolNameMap L raw))
                                  (gjson_Array (gjson_Get (Some raw) [Key ''messages''])))
                   else []))
   \<and> (gjson_String L (gjson_Get (Some m) [Key ''role'']) = ''tool'' \<longrightarrow>
        message_items L nm m =
          [JObj [(''type'', JStr ''function_call_output''),
                 (''call_id'', JStr (shortenCallID L (gjson_String L (gjson_Get (Some m) [Key ''tool_call_id''])))),
                 (''output'', JStr (gjson_String L (gjson_Get (Some m) [Key ''content''])))]])
   \<and> (gjson_String L (gjson_Get (Some m) [Key ''role'']) \<noteq> ''tool'' \<longrightarrow>
        (\<exists>msg. gjson_Get (Some msg) [Key ''type''] = Some (JStr ''message'') \<and>
           message_items L nm m =
             msg # (if gjson_String L (gjson_Get (Some m) [Key ''role'']) = ''assistant'' \<and>
                       gjson_IsArray (gjson_Get (Some m) [Key ''tool_calls''])
                    then map (function_call_item L nm)
                           (filter (\<lambda>tc. gjson_String L (gjson_Get (Some tc) [Key ''type'']) = ''function'')
                              (gjson_Array (gjson_Get (Some m) [Key ''tool_calls''])))
                    else [])))
   \<and> function_call_item L nm tc =
        JObj [(''type'', JStr ''function_call''),
              (''call_id'', JStr (shortenCallID L (gjson_String L (gjson_Get (Some tc) [Key ''id''])))),
              (''name'', JStr (mapped_name nm
                 (gjson_String L (gjson_Get (Some tc) [Key ''function'', Key ''name''])))),
              (''arguments'', JStr (gjson_String L (gjson_Get (Some tc) [Key ''function'', Key ''arguments''])))]"
proof -
  have 1: "gjson_Get (Some (ConvertOpenAIRequestToCodex L modelName raw stream)) [Key ''input'']
     = Some (JArr (if gjson_IsArray (gjson_Get (Some raw) [Key ''messages''])
                   then concat (map (message_items L (originalToolNameMap L raw))
                                  (gjson_Array (gjson_Get (Some raw) [Key ''messages''])))
                   else []))"
    unfolding Convert_input chat_items_def by simp
  have 2: "message_items L nm m =
          [JObj [(''type'', JStr ''function_call_output''),
                 (''call_id'', JStr (shortenCallID L (gjson_String L (gjson_Get (Some m) [Key ''tool_call_id''])))),
                 (''output'', JStr (gjson_String L (gjson_Get (Some m) [Key ''content''])))]]"
    if "gjson_String L (gjson_Get (Some m) [Key ''role'']) = ''tool''"
    using that by (simp add: message_items_def function_call_output_item_def Let_def)
  have 3: "\<exists>msg. gjson_Get (Some msg) [Key ''type''] = Some (JStr ''message'') \<and>
           message_items L nm m =
             msg # (if gjson_String L (gjson_Get (Some m) [Key ''role'']) = ''assistant'' \<and>
                       gjson_IsArray (gjson_Get (Some m) [Key ''tool_calls''])
                    then map (function_call_item L nm)
                           (filter (\<lambda>tc. gjson_String L (gjson_Get (Some tc) [Key ''type'']) = ''function'')
                              (gjson_Array (gjson_Get (Some m) [Key ''tool_calls''])))
                    else [])"
    if "gjson_String L (gjson_Get (Some m) [Key ''role'']) \<noteq> ''tool''"
  proof (intro exI conjI)
    show "gjson_Get (Some (build_message L (gjson_String L (gjson_Get (Some m) [Key ''role''])) m))
        [Key ''type''] = Some (JStr ''message'')" by (rule build_message_fields(1))
    show "message_items L nm m =
       build_message L (gjson_String L (gjson_Get (Some m) [Key ''role''])) m #
         (if gjson_String L (gjson_Get (Some m) [Key ''role'']) = ''assistant'' \<and>
                       gjson_IsArray (gjson_Get (Some m) [Key ''tool_calls''])
                    then map (function_call_item L nm)
                           (filter (\<lambda>tc. gjson_String L (gjson_Get (Some tc) [Key ''type'']) = ''function'')
                              (gjson_Array (gjson_Get (Some m) [Key ''tool_calls''])))
                    else [])"
      using that by (simp add: message_items_def function_call_items_def Let_def)
  qed
  have 4: "function_call_item L nm tc =
        JObj [(''type'', JStr ''function_call''),
              (''call_id'', JStr (shortenCallID L (gjson_String L (gjson_Get (Some tc) [Key ''id''])))),
              (''name'', JStr (mapped_name nm
                 (gjson_String L (gjson_Get (Some tc) [Key ''function'', Key ''name''])))),
              (''arguments'', JStr (gjson_String L (gjson_Get (Some tc) [Key ''function'', Key ''arguments''])))]"
    by (simp add: function_call_item_def)
  from 1 2 3 4 show ?thesis by blast
qed

theorem chat_messages_single_pass_witness:
  "gjson_String lib0 (gjson_Get (Some (JObj [(''role'', JStr ''tool''), (''tool_call_id'', JStr ''abc''),
      (''content'', JStr ''42'')])) [Key ''role'']) = ''tool'' \<and>
   gjson_String lib0 (gjson_Get (Some (JObj [(''role'', JStr ''system''), (''content'', JStr ''Be terse.'')]))
      [Key ''role'']) \<noteq> ''tool'' \<and>
   gjson_Get (Some (ConvertOpenAIRequestToCodex lib0 ''gpt-5'' example_chat_request True)) [Key ''input'']
     = Some (JArr [
         JObj [(''type'', JStr ''message''), (''role'', JStr ''developer''),
               (''content'', JArr [JObj [(''type'', JStr ''input_text''), (''text'', JStr ''Be terse.'')]])],
         JObj [(''type'', JStr ''message''), (''role'', JStr ''assistant''), (''content'', JArr [])],
         JObj [(''type'', JStr ''function_call''), (''call_id'', JStr ''abc''), (''name'', JStr ''foo''),
               (''arguments'', JStr ''{}'')],
         JObj [(''type'', JStr ''function_call_output''), (''call_id'', JStr ''abc''),
               (''output'', JStr ''42'')]])"
  using chat_messages_single_pass [of lib0 "''gpt-5''" example_chat_request True
      "JObj [(''role'', JStr ''tool''), (''tool_call_id'', JStr ''abc''), (''content'', JStr ''42'')]"
      "originalToolNameMap lib0 example_chat_request"
      "JObj [(''id'', JStr ''abc''), (''type'', JStr ''function''),
                 (''function'', JObj [(''name'', JStr ''foo''), (''arguments'', JStr ''{}'')])]"]
  by (simp add: chat_eval)

text \<open>
  Claim C6, as stated for both converters, fails in the Chat-Completions Converter: line
  154 always writes a \<open>role\<close> member, holding what \<open>Result.String()\<close> reads from the
  role of the message. A message with no \<open>role\<close> member reads as the empty string, so
  its message item carries \<open>role\<close> equal to the empty string where the input had no
  role at all. The functions of \<open>lib0\<close> are not consulted on this input.
\<close>

theorem missing_role_written_counterexample:
  "gjson_Get (Some (JObj [(''content'', JStr ''hi'')])) [Key ''role''] = None \<and>
   gjson_Get (Some (ConvertOpenAIRequestToCodex lib0 ''gpt-5''
       (JObj [(''messages'', JArr [JObj [(''content'', JStr ''hi'')]])]) True)) [Key ''input'']
     = Some (JArr [JObj [(''type'', JStr ''message''), (''role'', JStr []),
          (''content'', JArr [JObj [(''type'', JStr ''input_text''), (''text'', JStr ''hi'')]])]]) \<and>
   gjson_Get (Some (ConvertOpenAIRequestToCodex lib0 ''gpt-5''
       (JObj [(''messages'', JArr [JObj [(''content'', JStr ''hi'')]])]) True))
     [Key ''input'', Idx 0, Key ''role''] = Some (JStr [])"
proof -
  have i: "gjson_Get (Some (ConvertOpenAIRequestToCodex lib0 ''gpt-5''
       (JObj [(''messages'', JArr [JObj [(''content'', JStr ''hi'')]])]) True)) [Key ''input'']
     = Some (JArr [JObj [(''type'', JStr ''message''), (''role'', JStr []),
          (''content'', JArr [JObj [(''type'', JStr ''input_text''), (''text'', JStr ''hi'')]])]])"
    unfolding Convert_input
    by (simp add: chat_items_def message_items_def build_message_def Let_def gjson_Exists_def)
  have "gjson_Get (Some (ConvertOpenAIRequestToCodex lib0 ''gpt-5''
       (JObj [(''messages'', JArr [JObj [(''content'', JStr ''hi'')]])]) True))
     [Key ''input'', Idx 0, Key ''role'']
     = gjson_Get (gjson_Get (Some (ConvertOpenAIRequestToCodex lib0 ''gpt-5''
       (JObj [(''messages'', JArr [JObj [(''content'', JStr ''hi'')]])]) True)) [Key ''input''])
       [Idx 0, Key ''role'']"
    by (rule Get_path_split)
  also have "\<dots> = Some (JStr [])" unfolding i by simp
  finally show ?thesis using i by simp
qed

text \<open>
  Claim C6, amended. In the Chat-Completions Converter every message that is not a tool
  response is emitted as a message item whose role is \<open>developer\<close> when the role of the
  message reads \<open>system\<close>, and otherwise the role as \<open>Result.String()\<close> reads it, written
  as a string (the empty string when the message has no role). In the Responses
  Normalizer item \<open>i\<close> of the \<open>input\<close> array keeps its place, its \<open>role\<close> member becomes
  \<open>developer\<close> when it reads \<open>system\<close>, and is otherwise left as it is, absent when it
  was absent.
\<close>

theorem system_role_rewrite:
  "(gjson_Get (Some raw) [Key ''messages''] = Some (JArr msgs) \<and> m \<in> set msgs \<and>
    gjson_String L (gjson_Get (Some m) [Key ''role'']) \<noteq> ''tool'' \<longrightarrow>
      build_message L (gjson_String L (gjson_Get (Some m) [Key ''role''])) m
        \<in> set (gjson_Array (gjson_Get (Some (ConvertOpenAIRequestToCodex L modelName raw stream))
                 [Key ''input''])) \<and>
      gjson_Get (Some (build_message L (gjson_String L (gjson_Get (Some m) [Key ''role''])) m)) [Key ''role'']
        = Some (JStr (if gjson_String L (gjson_Get (Some m) [Key ''role'']) = ''system'' then ''developer''
                      else gjson_String L (gjson_Get (Some m) [Key ''role'']))))
   \<and> (gjson_Get (Some (JObj ms)) [Key ''input''] = Some (JArr items) \<and> i < length items \<longrightarrow>
      gjson_Get (Some (ConvertOpenAIResponsesRequestToCodex L model (JObj ms) unused))
          [Key ''input'', Idx i, Key ''role'']
        = (if gjson_String L (gjson_Get (Some (items ! i)) [Key ''role'']) = ''system''
           then Some (JStr ''developer'') else gjson_Get (Some (items ! i)) [Key ''role'']))"
proof (intro conjI impI)
  assume a: "gjson_Get (Some raw) [Key ''messages''] = Some (JArr msgs) \<and> m \<in> set msgs \<and>
    gjson_String L (gjson_Get (Some m) [Key ''role'']) \<noteq> ''tool''"
  then have "build_message L (gjson_String L (gjson_Get (Some m) [Key ''role''])) m
      \<in> set (message_items L (originalToolNameMap L raw) m)"
    by (simp add: message_items_def Let_def)
  with a show "build_message L (gjson_String L (gjson_Get (Some m) [Key ''role''])) m
        \<in> set (gjson_Array (gjson_Get (Some (ConvertOpenAIRequestToCodex L modelName raw stream))
                 [Key ''input'']))"
    by (intro chat_items_member [of raw msgs m]) simp_all
  show "gjson_Get (Some (build_message L (gjson_String L (gjson_Get (Some m) [Key ''role''])) m)) [Key ''role'']
        = Some (JStr (if gjson_String L (gjson_Get (Some m) [Key ''role'']) = ''system'' then ''developer''
                      else gjson_String L (gjson_Get (Some m) [Key ''role''])))"
    by (rule build_message_fields(2))
next
  assume a: "gjson_Get (Some (JObj ms)) [Key ''input''] = Some (JArr items) \<and> i < length items"
  then have "gjson_Get (Some (ConvertOpenAIResponsesRequestToCodex L model (JObj ms) unused))
          (Key ''input'' # Idx i # [Key ''role''])
      = gjson_Get (Some (fix_call_id L (fix_role L (items ! i)))) [Key ''role'']"
    by (intro Convert_Responses_item) simp_all
  also have "\<dots> = gjson_Get (Some (fix_role L (items ! i))) [Key ''role'']"
    by (rule fix_call_id_other) simp
  finally show "gjson_Get (Some (ConvertOpenAIResponsesRequestToCodex L model (JObj ms) unused))
          [Key ''input'', Idx i, Key ''role'']
        = (if gjson_String L (gjson_Get (Some (items ! i)) [Key ''role'']) = ''system''
           then Some (JStr ''developer'') else gjson_Get (Some (items ! i)) [Key ''role''])"
    unfolding fix_role_role .
qed

theorem system_role_rewrite_witness:
  "gjson_Get (Some example_chat_request) [Key ''messages'']
     = Some (JArr (gjson_Array (gjson_Get (Some example_chat_request) [Key ''messages'']))) \<and>
   JObj [(''role'', JStr ''system''), (''content'', JStr ''Be terse.'')]
     \<in> set (gjson_Array (gjson_Get (Some example_chat_request) [Key ''messages''])) \<and>
   gjson_String lib0 (gjson_Get (Some (JObj [(''role'', JStr ''system''), (''content'', JStr ''Be terse.'')]))
     [Key ''role'']) \<noteq> ''tool'' \<and>
   build_message lib0 ''system'' (JObj [(''role'', JStr ''system''), (''content'', JStr ''Be terse.'')])
     \<in> set (gjson_Array (gjson_Get (Some (ConvertOpenAIRequestToCodex lib0 ''gpt-5'' example_chat_request True))
          [Key ''input''])) \<and>
   gjson_Get (Some (build_message lib0 ''system''
       (JObj [(''role'', JStr ''system''), (''content'', JStr ''Be terse.'')]))) [Key ''role'']
     = Some (JStr ''developer'') \<and>
   gjson_Get (Some (JObj [(''model'', JStr ''gpt-5.2''), (''input'', JArr example_responses_items)]))
     [Key ''input''] = Some (JArr example_responses_items) \<and>
   2 < length example_responses_items \<and> 3 < length example_responses_items \<and>
   gjson_Get (Some (ConvertOpenAIResponsesRequestToCodex lib0 ''gpt-5.2''
        (JObj [(''model'', JStr ''gpt-5.2''), (''input'', JArr example_responses_items)]) False))
      [Key ''input'', Idx 2, Key ''role''] = Some (JStr ''developer'') \<and>
   gjson_Get (Some (ConvertOpenAIResponsesRequestToCodex lib0 ''gpt-5.2''
        (JObj [(''model'', JStr ''gpt-5.2''), (''input'', JArr example_responses_items)]) False))
      [Key ''input'', Idx 3, Key ''role''] = Some (JStr ''user'')"
proof -
  have h1: "gjson_Get (Some example_chat_request) [Key ''messages'']
       = Some (JArr (gjson_Array (gjson_Get (Some example_chat_request) [Key ''messages''])))
     \<and> JObj [(''role'', JStr ''system''), (''content'', JStr ''Be terse.'')]
       \<in> set (gjson_Array (gjson_Get (Some example_chat_request) [Key ''messages'']))
     \<and> gjson_String lib0 (gjson_Get (Some (JObj [(''role'', JStr ''system''), (''content'', JStr ''Be terse.'')]))
       [Key ''role'']) \<noteq> ''tool''"
    by (simp add: example_chat_request_def)
  have r: "gjson_String lib0 (gjson_Get (Some (JObj [(''role'', JStr ''system''),
      (''content'', JStr ''Be terse.'')])) [Key ''role'']) = ''system''" by simp
  have h2: "gjson_Get (Some (JObj [(''model'', JStr ''gpt-5.2''), (''input'', JArr example_responses_items)]))
         [Key ''input''] = Some (JArr example_responses_items) \<and> 2 < length example_responses_items"
    and h3: "gjson_Get (Some (JObj [(''model'', JStr ''gpt-5.2''), (''input'', JArr example_responses_items)]))
         [Key ''input''] = Some (JArr example_responses_items) \<and> 3 < length example_responses_items"
    by (simp_all add: example_responses_items_def)
  note t2 = system_role_rewrite [where L = lib0 and raw = example_chat_request
      and msgs = "gjson_Array (gjson_Get (Some example_chat_request) [Key ''messages''])"
      and m = "JObj [(''role'', JStr ''system''), (''content'', JStr ''Be terse.'')]"
      and modelName = "''gpt-5''" and stream = True and model = "''gpt-5.2''" and unused = False
      and ms = "[(''model'', JStr ''gpt-5.2''), (''input'', JArr example_responses_items)]"
      and items = example_responses_items and i = 2]
  note t3 = system_role_rewrite [where L = lib0 and raw = example_chat_request
      and msgs = "gjson_Array (gjson_Get (Some example_chat_request) [Key ''messages''])"
      and m = "JObj [(''role'', JStr ''system''), (''content'', JStr ''Be terse.'')]"
      and modelName = "''gpt-5''" and stream = True and model = "''gpt-5.2''" and unused = False
      and ms = "[(''model'', JStr ''gpt-5.2''), (''input'', JArr example_responses_items)]"
      and items = example_responses_items and i = 3]
  note a = t2 [THEN conjunct1, THEN mp, OF h1, unfolded r]
  have b: "gjson_Get (Some (ConvertOpenAIResponsesRequestToCodex lib0 ''gpt-5.2''
        (JObj [(''model'', JStr ''gpt-5.2''), (''input'', JArr example_responses_items)]) False))
      [Key ''input'', Idx 2, Key ''role''] = Some (JStr ''developer'')"
    unfolding t2 [THEN conjunct2, THEN mp, OF h2] by (simp add: example_responses_items_def)
  have c: "gjson_Get (Some (ConvertOpenAIResponsesRequestToCodex lib0 ''gpt-5.2''
        (JObj [(''model'', JStr ''gpt-5.2''), (''input'', JArr example_responses_items)]) False))
      [Key ''input'', Idx 3, Key ''role''] = Some (JStr ''user'')"
    unfolding t3 [THEN conjunct2, THEN mp, OF h3] by (simp add: example_responses_items_def)
  from h1 a h2 h3 b c show ?thesis by simp
qed

text \<open>
  Claim C7, as stated, fails: the converter writes \<open>text.format\<close> for a \<open>response_format\<close>
  of type \<open>json_schema\<close> only inside \<open>if js.Exists()\<close>. A request whose \<open>response_format\<close>
  has the type but no \<open>json_schema\<close> member yields an empty \<open>text\<close> object and no
  \<open>text.format.type\<close>. The functions of \<open>lib0\<close> are not consulted on this input.
\<close>

theorem json_schema_without_member_counterexample:
  "gjson_String lib0 (gjson_Get (Some (JObj [(''response_format'', JObj [(''type'', JStr ''json_schema'')])]))
      [Key ''response_format'', Key ''type'']) = ''json_schema'' \<and>
   gjson_Get (Some (ConvertOpenAIRequestToCodex lib0 ''gpt-5''
       (JObj [(''response_format'', JObj [(''type'', JStr ''json_schema'')])]) True))
     [Key ''text''] = Some (JObj []) \<and>
   gjson_Get (Some (ConvertOpenAIRequestToCodex lib0 ''gpt-5''
       (JObj [(''response_format'', JObj [(''type'', JStr ''json_schema'')])]) True))
     [Key ''text'', Key ''format'', Key ''type''] \<noteq> Some (JStr ''json_schema'')"
  unfolding Convert_text
  by (simp add: map_response_format_def chat_base_def chat_items_def Let_def gjson_Exists_def)

text \<open>
  Claim C7, amended. Whenever \<open>response_format.type\<close> reads \<open>json_schema\<close> and
  \<open>response_format\<close> has a \<open>json_schema\<close> member, \<open>text.format\<close> of the output is the object
  holding \<open>type = json_schema\<close>, then \<open>name\<close> and \<open>strict\<close> when present (written from
  \<open>Result.Value()\<close>, which returns a string, a boolean and \<open>null\<close> unchanged), then \<open>schema\<close>
  when present, the very subtree of the input; a member absent in the input is absent
  in the output.
\<close>

theorem json_schema_mapping:
  assumes "gjson_Get (Some raw) [Key ''response_format''] = Some rf"
    and "gjson_String L (gjson_Get (Some rf) [Key ''type'']) = ''json_schema''"
    and "gjson_Get (Some rf) [Key ''json_schema''] = Some js"
  shows "gjson_Get (Some (ConvertOpenAIRequestToCodex L modelName raw stream)) [Key ''text'', Key ''format'']
      = Some (JObj ([(''type'', JStr ''json_schema'')]
           @ (case gjson_Get (Some js) [Key ''name''] of
                Some v \<Rightarrow> [(''name'', gjson_Value L v)] | None \<Rightarrow> [])
           @ (case gjson_Get (Some js) [Key ''strict''] of
                Some v \<Rightarrow> [(''strict'', gjson_Value L v)] | None \<Rightarrow> [])
           @ (case gjson_Get (Some js) [Key ''schema''] of
                Some v \<Rightarrow> [(''schema'', v)] | None \<Rightarrow> [])))"
proof -
  from assms(2) have ne: "gjson_String L (gjson_Get (Some rf) [Key ''type'']) \<noteq> ''text''" by simp
  show ?thesis
    unfolding Convert_text
    using assms ne
    by (simp add: map_response_format_def chat_base_def Let_def gjson_Exists_def
          split: option.splits)
qed

theorem json_schema_mapping_witness:
  "gjson_Get (Some (JObj [(''response_format'', JObj [(''type'', JStr ''json_schema''),
        (''json_schema'', JObj [(''name'', JStr ''N''), (''strict'', JBool True),
           (''schema'', JObj [(''type'', JStr ''object'')])])])])) [Key ''response_format'']
     = Some (JObj [(''type'', JStr ''json_schema''),
        (''json_schema'', JObj [(''name'', JStr ''N''), (''strict'', JBool True),
           (''schema'', JObj [(''type'', JStr ''object'')])])]) \<and>
   gjson_Get (Some (ConvertOpenAIRequestToCodex lib0 ''gpt-5''
      (JObj [(''response_format'', JObj [(''type'', JStr ''json_schema''),
        (''json_schema'', JObj [(''name'', JStr ''N''), (''strict'', JBool True),
           (''schema'', JObj [(''type'', JStr ''object'')])])])]) True)) [Key ''text'', Key ''format'']
     = Some (JObj [(''type'', JStr ''json_schema''), (''name'', JStr ''N''), (''strict'', JBool True),
          (''schema'', JObj [(''type'', JStr ''object'')])])"
  using json_schema_mapping [of
      "JObj [(''response_format'', JObj [(''type'', JStr ''json_schema''),
        (''json_schema'', JObj [(''name'', JStr ''N''), (''strict'', JBool True),
           (''schema'', JObj [(''type'', JStr ''object'')])])])]"
      "JObj [(''type'', JStr ''json_schema''),
        (''json_schema'', JObj [(''name'', JStr ''N''), (''strict'', JBool True),
           (''schema'', JObj [(''type'', JStr ''object'')])])]"
      lib0
      "JObj [(''name'', JStr ''N''), (''strict'', JBool True),
           (''schema'', JObj [(''type'', JStr ''object'')])]"
      "''gpt-5''" True]
  by simp







text \<open>
  Claim C10. An entry of the input \<open>tools\<close> array whose type reads as the empty string
  (absent, empty or \<open>null\<close>), or whose type is neither empty nor \<open>function\<close> while the
  entry is not an object, contributes nothing to the output \<open>tools\<close> array: the output
  array is what the entries before it contribute followed by what the entries after it
  contribute. In the tree model a member lookup on a value that is not an object finds
  nothing, so the type of such an entry always reads as empty and the second case adds
  no further inputs.
\<close>

theorem dropped_tool_entries:
  assumes "gjson_Get (Some raw) [Key ''tools''] = Some (JArr arr)" and "i < length arr"
    and "gjson_String L (gjson_Get (Some (arr ! i)) [Key ''type'']) = []
         \<or> (gjson_String L (gjson_Get (Some (arr ! i)) [Key ''type'']) \<noteq> []
            \<and> gjson_String L (gjson_Get (Some (arr ! i)) [Key ''type'']) \<noteq> ''function''
            \<and> \<not> gjson_IsObject (Some (arr ! i)))"
  shows "tool_entry L (originalToolNameMap L raw) (arr ! i) = []
       \<and> gjson_Get (Some (ConvertOpenAIRequestToCodex L modelName raw stream)) [Key ''tools'']
         = Some (JArr (concat (map (tool_entry L (originalToolNameMap L raw)) (take i arr))
                     @ concat (map (tool_entry L (originalToolNameMap L raw)) (drop (Suc i) arr))))"
proof -
  have e: "tool_entry L (originalToolNameMap L raw) (arr ! i) = []"
    using assms(3) by (auto simp: tool_entry_def Let_def)
  have ne: "arr \<noteq> []" using assms(2) by auto
  have "arr = take i arr @ arr ! i # drop (Suc i) arr"
    using assms(2) by (simp add: id_take_nth_drop)
  then have "concat (map (tool_entry L (originalToolNameMap L raw)) arr)
      = concat (map (tool_entry L (originalToolNameMap L raw)) (take i arr))
        @ tool_entry L (originalToolNameMap L raw) (arr ! i)
        @ concat (map (tool_entry L (originalToolNameMap L raw)) (drop (Suc i) arr))"
    by (metis concat.simps(2) concat_append list.simps(9) map_append)
  with e have c: "concat (map (tool_entry L (originalToolNameMap L raw)) arr)
      = concat (map (tool_entry L (originalToolNameMap L raw)) (take i arr))
        @ concat (map (tool_entry L (originalToolNameMap L raw)) (drop (Suc i) arr))" by simp
  have "gjson_Get (Some (ConvertOpenAIRequestToCodex L modelName raw stream)) [Key ''tools'']
      = Some (JArr (concat (map (tool_entry L (originalToolNameMap L raw)) arr)))"
    unfolding Convert_tools using assms(1) ne by simp
  with e c show ?thesis by simp
qed

theorem dropped_tool_entries_witness:
  "gjson_Get (Some (JObj [(''tools'', JArr [JObj [(''name'', JStr ''untyped'')],
       JObj [(''type'', JStr ''web_search'')]])])) [Key ''tools'']
     = Some (JArr [JObj [(''name'', JStr ''untyped'')], JObj [(''type'', JStr ''web_search'')]]) \<and>
   gjson_String lib0 (gjson_Get (Some ([JObj [(''name'', JStr ''untyped'')],
       JObj [(''type'', JStr ''web_search'')]] ! 0)) [Key ''type'']) = [] \<and>
   gjson_Get (Some (ConvertOpenAIRequestToCodex lib0 ''gpt-5''
      (JObj [(''tools'', JArr [JObj [(''name'', JStr ''untyped'')],
         JObj [(''type'', JStr ''web_search'')]])]) True)) [Key ''tools'']
     = Some (JArr [JObj [(''type'', JStr ''web_search'')]])"
  using dropped_tool_entries [of
      "JObj [(''tools'', JArr [JObj [(''name'', JStr ''untyped'')], JObj [(''type'', JStr ''web_search'')]])]"
      "[JObj [(''name'', JStr ''untyped'')], JObj [(''type'', JStr ''web_search'')]]" 0 lib0
      "''gpt-5''" True]
  by (simp add: tool_entry_def Let_def)

end
